theory Spec2Isabelle
  imports Complex_Main "HOL-Library.List_Lexorder" "HOL-Library.Char_ord"
begin

section \<open>Proxy pool (utils/proxy\_manager.py)\<close>

text \<open>
  Python's exceptions are values. Timestamps, delays and the failure rate are Python
  floats; they are modelled by real numbers, so rounding is not part of the model.
\<close>

datatype py_error = KeyError | OtherError string

text \<open>One entry of \<open>ProxyManager.proxy_stats\<close>: the dict with the keys
  \<open>requests\<close>, \<open>failures\<close>, \<open>last_used\<close>, \<open>response_time\<close>, \<open>active\<close>.\<close>

record proxy_stat =
  requests :: int
  failures :: int
  last_used :: real
  response_time :: real
  active :: bool

text \<open>\<open>ProxyManager\<close>: the list \<open>proxies\<close>, the round-robin cursor, the statistics
  dict, and the one configuration field it reads, \<open>config.proxy_rotation\<close>.\<close>

record proxy_manager =
  proxies :: "string list"
  current_proxy_index :: nat
  proxy_stats :: "string \<rightharpoonup> proxy_stat"
  proxy_rotation :: bool

definition new_proxy_stat :: proxy_stat where
  "new_proxy_stat =
     \<lparr>requests = 0, failures = 0, last_used = 0, response_time = 0, active = True\<rparr>"

text \<open>\<open>ProxyManager.__init__\<close>: every configured proxy starts with fresh statistics.\<close>

definition proxy_manager_init :: "string list \<Rightarrow> bool \<Rightarrow> proxy_manager" where
  "proxy_manager_init proxy_list rotation =
     \<lparr>proxies = proxy_list, current_proxy_index = 0,
      proxy_stats = (\<lambda>p. if p \<in> set proxy_list then Some new_proxy_stat else None),
      proxy_rotation = rotation\<rparr>"

text \<open>
  \<open>ProxyManager.get_proxy\<close>. \<open>self.proxy_stats[p]\<close> raises \<open>KeyError\<close> for a proxy
  without statistics. \<open>random.choice\<close> is the external random source: \<open>pick\<close> is the
  index it draws, reduced modulo the number of active proxies. \<open>now\<close> is the reading
  of \<open>time.time()\<close>.
\<close>

definition get_proxy ::
  "nat \<Rightarrow> real \<Rightarrow> proxy_manager \<Rightarrow> py_error + (string option \<times> proxy_manager)" where
  "get_proxy pick now pm =
     (if proxies pm = [] then Inr (None, pm)
      else if \<exists>p \<in> set (proxies pm). proxy_stats pm p = None then Inl KeyError
      else
        let active_proxies =
              filter (\<lambda>p. case proxy_stats pm p of Some st \<Rightarrow> active st | None \<Rightarrow> False)
                (proxies pm)
        in if active_proxies = [] then Inr (None, pm)
           else
             let (proxy, pm1) =
                   (if proxy_rotation pm
                    then (active_proxies ! (current_proxy_index pm mod length active_proxies),
                          pm\<lparr>current_proxy_index := current_proxy_index pm + 1\<rparr>)
                    else (active_proxies ! (pick mod length active_proxies), pm))
             in (case proxy_stats pm1 proxy of
                   None \<Rightarrow> Inl KeyError
                 | Some st \<Rightarrow>
                     Inr (Some proxy,
                          pm1\<lparr>proxy_stats := (proxy_stats pm1)
                                 (proxy \<mapsto> st\<lparr>requests := requests st + 1, last_used := now\<rparr>)\<rparr>)))"

text \<open>\<open>ProxyManager.mark_proxy_failed\<close>: count the failure, then disable the entry when
  the failure rate is above one half and more than five requests were made.\<close>

definition mark_proxy_failed :: "string \<Rightarrow> proxy_manager \<Rightarrow> proxy_manager" where
  "mark_proxy_failed proxy pm =
     (case proxy_stats pm proxy of
        None \<Rightarrow> pm
      | Some st \<Rightarrow>
          let st1 = st\<lparr>failures := failures st + 1\<rparr>;
              failure_rate = real_of_int (failures st1) / real_of_int (max 1 (requests st1));
              st2 = (if failure_rate > 0.5 \<and> requests st1 > 5
                     then st1\<lparr>active := False\<rparr> else st1)
          in pm\<lparr>proxy_stats := (proxy_stats pm)(proxy \<mapsto> st2)\<rparr>)"

text \<open>\<open>ProxyManager.mark_proxy_success\<close>: overwrite the recorded response time.\<close>

definition mark_proxy_success :: "string \<Rightarrow> real \<Rightarrow> proxy_manager \<Rightarrow> proxy_manager" where
  "mark_proxy_success proxy rt pm =
     (case proxy_stats pm proxy of
        None \<Rightarrow> pm
      | Some st \<Rightarrow> pm\<lparr>proxy_stats := (proxy_stats pm)(proxy \<mapsto> st\<lparr>response_time := rt\<rparr>)\<rparr>)"

section \<open>Configuration (config/settings.py)\<close>

text \<open>The fields of \<open>ScrapingConfig\<close> that the modelled code reads.\<close>

record scraping_config =
  base_delay :: real
  timeout :: int
  max_retries :: int
  concurrent_requests :: int
  use_proxies :: bool
  proxy_list :: "string list"
  cfg_proxy_rotation :: bool
  respect_robots_txt :: bool
  crawl_delay :: "real option"

section \<open>Rate limiter (utils/rate\_limiter.py)\<close>

record rate_limiter =
  last_request_time :: real
  request_count :: int
  window_start :: real

definition rate_limiter_init :: "real \<Rightarrow> rate_limiter" where
  "rate_limiter_init now = \<lparr>last_request_time = 0, request_count = 0, window_start = now\<rparr>"

text \<open>
  The minimum delay of \<open>wait_sync\<close>: \<open>config.base_delay\<close>, raised to
  \<open>config.crawl_delay\<close> when that attribute is truthy (neither \<open>None\<close> nor zero).
\<close>

definition min_delay :: "scraping_config \<Rightarrow> real" where
  "min_delay cfg =
     (case crawl_delay cfg of
        None \<Rightarrow> base_delay cfg
      | Some cd \<Rightarrow> if cd \<noteq> 0 then max (base_delay cfg) cd else base_delay cfg)"

text \<open>
  \<open>RateLimiter.wait_sync\<close>. \<open>current_time\<close> is the first reading of \<open>time.time()\<close>;
  \<open>time.sleep\<close> is taken to last exactly the requested time, so the second reading is
  the first plus the time slept. The result is the time slept and the updated limiter.
\<close>

definition wait_sync :: "scraping_config \<Rightarrow> real \<Rightarrow> rate_limiter \<Rightarrow> real \<times> rate_limiter" where
  "wait_sync cfg current_time rl =
     (let time_since_last = current_time - last_request_time rl;
          sleep_time = (if time_since_last < min_delay cfg
                        then min_delay cfg - time_since_last else 0)
      in (sleep_time,
          rl\<lparr>last_request_time := current_time + sleep_time,
             request_count := request_count rl + 1\<rparr>))"

section \<open>Base scraper (core/base\_scraper.py)\<close>

text \<open>
  \<open>urllib.robotparser.RobotFileParser\<close> of the standard library, which the scraper
  creates and reads. The entries of a parsed robots.txt are given by their two verdicts, by
  user agent and URL. The request for robots.txt either raises (a network error, a
  timeout, a body that cannot be decoded), or is answered with an HTTP error status, or
  delivers a robots.txt.
\<close>

record robots_rules =
  rules_allow :: "string \<Rightarrow> string \<Rightarrow> bool"
  rules_delay :: "string \<Rightarrow> real option"

datatype robots_answer = ReadRaises | HTTPError int | RobotsTxt robots_rules

text \<open>The fields of a \<open>RobotFileParser\<close>; \<open>last_checked\<close> is the truth value of the
  time stamp that \<open>parse\<close> sets.\<close>

record robots_parser =
  disallow_all :: bool
  allow_all :: bool
  last_checked :: bool
  entries :: robots_rules

text \<open>A new parser has no entries: every URL is allowed to every agent and no delay is
  set, once the parser counts as read.\<close>

definition new_robots_parser :: robots_parser where
  "new_robots_parser =
     \<lparr>disallow_all = False, allow_all = False, last_checked = False,
      entries = \<lparr>rules_allow = (\<lambda>ua url. True), rules_delay = (\<lambda>ua. None)\<rparr>\<rparr>"

text \<open>
  \<open>RobotFileParser.read\<close>: an \<open>HTTPError\<close> is caught inside \<open>read\<close>, which sets
  \<open>disallow_all\<close> for the status 401 or 403 and \<open>allow_all\<close> for any other status from
  400 to 499, and nothing for other statuses; a delivered robots.txt is parsed. Any other
  exception leaves \<open>read\<close>, which is the result \<open>None\<close>.
\<close>

definition rp_read :: "robots_answer \<Rightarrow> robots_parser \<Rightarrow> robots_parser option" where
  "rp_read answer rp =
     (case answer of
        ReadRaises \<Rightarrow> None
      | HTTPError code \<Rightarrow>
          Some (if code = 401 \<or> code = 403 then rp\<lparr>disallow_all := True\<rparr>
                else if 400 \<le> code \<and> code < 500 then rp\<lparr>allow_all := True\<rparr>
                else rp)
      | RobotsTxt r \<Rightarrow> Some (rp\<lparr>entries := r, last_checked := True\<rparr>))"

text \<open>\<open>RobotFileParser.can_fetch\<close> and \<open>RobotFileParser.crawl_delay\<close>.\<close>

definition rp_can_fetch :: "robots_parser \<Rightarrow> string \<Rightarrow> string \<Rightarrow> bool" where
  "rp_can_fetch rp useragent url =
     (if disallow_all rp then False
      else if allow_all rp then True
      else if \<not> last_checked rp then False
      else rules_allow (entries rp) useragent url)"

definition rp_crawl_delay :: "robots_parser \<Rightarrow> string \<Rightarrow> real option" where
  "rp_crawl_delay rp useragent =
     (if \<not> last_checked rp then None else rules_delay (entries rp) useragent)"

text \<open>
  The session that \<open>SessionManager.get_sync_session\<close> builds: its adapter is mounted
  with \<open>max_retries\<close> and the two pool sizes of the configuration.
\<close>

record http_session =
  adapter_max_retries :: int
  pool_connections :: int
  pool_maxsize :: int

record parsed_url =
  scheme :: string
  netloc :: string
  path :: string
  params :: string
  query :: string
  fragment :: string

record response =
  status_code :: int
  resp_text :: string

datatype http_result = RequestException | Response int string

text \<open>
  The collaborators outside the repository: \<open>urlparse\<close> and \<open>urljoin\<close> of urllib, the
  answer to the request for a robots.txt URL, the \<open>request\<close> method of a session
  (raising, or answering with a status code and a body; what it does depends on the
  session, whose adapter retries on its own up to its \<open>max_retries\<close>) and the index drawn
  by \<open>random.choice\<close>. The robots answers and the session are indexed by the number of
  calls made before, so their answers may change over time.
\<close>

record world =
  urlparse :: "string \<Rightarrow> parsed_url"
  urljoin :: "string \<Rightarrow> string \<Rightarrow> string"
  robots_fetch :: "nat \<Rightarrow> string \<Rightarrow> robots_answer"
  session_request :: "nat \<Rightarrow> http_session \<Rightarrow> string \<Rightarrow> string option \<Rightarrow> http_result"
  random_pick :: nat

text \<open>
  The state of a \<open>BaseScraper\<close>: configuration, rate limiter, proxy manager (absent
  unless \<open>use_proxies\<close>), the robots cache, the session of its session manager (absent
  until the first request) and the three request counters of \<open>stats\<close>.
  Two traces record the calls made to the outside: the robots.txt URLs read and the
  session requests issued, each with the proxy it was sent through.
\<close>

record base_scraper =
  config :: scraping_config
  rate_limiter :: rate_limiter
  proxy_manager :: "proxy_manager option"
  robots_cache :: "string \<rightharpoonup> robots_parser option"
  sync_session :: "http_session option"
  requests_made :: int
  successful_requests :: int
  failed_requests :: int
  robots_reads :: "string list"
  session_requests :: "(string \<times> string option) list"

definition base_scraper_init :: "scraping_config \<Rightarrow> real \<Rightarrow> base_scraper" where
  "base_scraper_init cfg now =
     \<lparr>config = cfg,
      rate_limiter = rate_limiter_init now,
      proxy_manager = (if use_proxies cfg
                       then Some (proxy_manager_init (proxy_list cfg) (cfg_proxy_rotation cfg))
                       else None),
      robots_cache = Map.empty,
      sync_session = None,
      requests_made = 0, successful_requests = 0, failed_requests = 0,
      robots_reads = [], session_requests = []\<rparr>"

definition domain_of :: "world \<Rightarrow> string \<Rightarrow> string" where
  "domain_of w url = scheme (urlparse w url) @ ''://'' @ netloc (urlparse w url)"

text \<open>\<open>SessionManager.get_sync_session\<close>: the session is built at the first call and
  kept. The result is the session and the new value of \<open>_sync_session\<close>.\<close>

definition get_sync_session ::
  "scraping_config \<Rightarrow> http_session option \<Rightarrow> http_session \<times> http_session option" where
  "get_sync_session cfg current =
     (case current of
        None \<Rightarrow>
          let session = \<lparr>adapter_max_retries = max_retries cfg,
                         pool_connections = concurrent_requests cfg,
                         pool_maxsize = concurrent_requests cfg * 2\<rparr>
          in (session, Some session)
      | Some session \<Rightarrow> (session, Some session))"

text \<open>\<open>BaseScraper._get_robots_parser\<close>: one read of robots.txt per domain, the key of
  the cache being scheme and network location; a read that raises stores \<open>None\<close> for the
  domain, any other read stores the parser.\<close>

definition get_robots_parser ::
  "world \<Rightarrow> string \<Rightarrow> base_scraper \<Rightarrow> robots_parser option \<times> base_scraper" where
  "get_robots_parser w url s =
     (if \<not> respect_robots_txt (config s) then (None, s)
      else
        let domain = domain_of w url in
        case robots_cache s domain of
          Some cached \<Rightarrow> (cached, s)
        | None \<Rightarrow>
            let robots_url = urljoin w domain ''/robots.txt'';
                rp = rp_read (robots_fetch w (length (robots_reads s)) robots_url)
                       new_robots_parser;
                s1 = s\<lparr>robots_cache := (robots_cache s)(domain \<mapsto> rp),
                       robots_reads := robots_reads s @ [robots_url]\<rparr>
            in (rp, s1))"

text \<open>\<open>BaseScraper._can_fetch\<close> and \<open>BaseScraper._get_crawl_delay\<close>.\<close>

definition can_fetch :: "world \<Rightarrow> string \<Rightarrow> string \<Rightarrow> base_scraper \<Rightarrow> bool \<times> base_scraper" where
  "can_fetch w url user_agent s =
     (case get_robots_parser w url s of
        (None, s1) \<Rightarrow> (True, s1)
      | (Some rp, s1) \<Rightarrow> (rp_can_fetch rp user_agent url, s1))"

definition get_crawl_delay ::
  "world \<Rightarrow> string \<Rightarrow> string \<Rightarrow> base_scraper \<Rightarrow> real option \<times> base_scraper" where
  "get_crawl_delay w url user_agent s =
     (case get_robots_parser w url s of
        (None, s1) \<Rightarrow> (None, s1)
      | (Some rp, s1) \<Rightarrow> (rp_crawl_delay rp user_agent, s1))"

text \<open>
  \<open>BaseScraper._make_request_sync\<close>, with the default user agent \<open>*\<close> of \<open>_can_fetch\<close>.
  The steps are those of the source: robots check (return \<open>None\<close> on denial), rate
  limiter, proxy selection (a \<open>KeyError\<close> of \<open>get_proxy\<close> is raised before the \<open>try\<close>
  block and leaves the function, with the state as it is then), then inside the \<open>try\<close>
  block the counter \<open>requests_made\<close> and the one call of \<open>request\<close> on the session
  of \<open>get_sync_session\<close>, whose adapter is mounted with \<open>max_retries\<close>. A response
  with status 200 is returned; any other status and any exception count a failed request
  and return \<open>None\<close>. \<open>now\<close> is the clock when the rate limiter is entered; \<open>get_proxy\<close> reads the
  clock after the sleep. Preparing the headers has no effect on the state and is left out.
\<close>

definition make_request_sync ::
  "world \<Rightarrow> real \<Rightarrow> string \<Rightarrow> base_scraper \<Rightarrow> (py_error + response option) \<times> base_scraper" where
  "make_request_sync w now url s =
     (case can_fetch w url ''*'' s of
        (False, s1) \<Rightarrow> (Inr None, s1)
      | (True, s1) \<Rightarrow>
          let (slept, rl) = wait_sync (config s1) now (rate_limiter s1);
              s2 = s1\<lparr>rate_limiter := rl\<rparr>;
              drawn = (case proxy_manager s2 of
                         None \<Rightarrow> Inr (None, s2)
                       | Some pm \<Rightarrow>
                           (case get_proxy (random_pick w) (last_request_time rl) pm of
                              Inl e \<Rightarrow> Inl e
                            | Inr (proxy, pm1) \<Rightarrow>
                                Inr (proxy, s2\<lparr>proxy_manager := Some pm1\<rparr>)))
          in case drawn of
               Inl e \<Rightarrow> (Inl e, s2)
             | Inr (proxy, s3) \<Rightarrow>
                 let proxies_arg = (case proxy of
                                      None \<Rightarrow> None
                                    | Some p \<Rightarrow> if p \<noteq> [] then Some p else None);
                     (session, kept) = get_sync_session (config s3) (sync_session s3);
                     s4 = s3\<lparr>requests_made := requests_made s3 + 1,
                            sync_session := kept,
                            session_requests := session_requests s3 @ [(url, proxies_arg)]\<rparr>
                 in case session_request w (length (session_requests s3)) session url
                           proxies_arg of
                      RequestException \<Rightarrow>
                        (Inr None, s4\<lparr>failed_requests := failed_requests s4 + 1\<rparr>)
                    | Response code body \<Rightarrow>
                        if code = 200
                        then (Inr (Some \<lparr>status_code = code, resp_text = body\<rparr>),
                              s4\<lparr>successful_requests := successful_requests s4 + 1\<rparr>)
                        else (Inr None, s4\<lparr>failed_requests := failed_requests s4 + 1\<rparr>))"


text \<open>The crawl delay of the configuration, zero when none is configured.\<close>

definition configured_delay :: "scraping_config \<Rightarrow> real" where
  "configured_delay cfg = (case crawl_delay cfg of None \<Rightarrow> 0 | Some cd \<Rightarrow> cd)"

section \<open>Pagination handler (utils/pagination\_handler.py)\<close>

text \<open>The query functions of urllib used by \<open>generate_page_urls\<close>: \<open>parse_qs\<close> (a dict,
  here the list of its items in insertion order), \<open>urlencode\<close> with \<open>doseq=True\<close> and
  \<open>urlunparse\<close>.\<close>

record query_lib =
  parse_qs :: "string \<Rightarrow> (string \<times> string list) list"
  urlencode :: "(string \<times> string list) list \<Rightarrow> string"
  urlunparse :: "parsed_url \<Rightarrow> string"

text \<open>\<open>d[k] = v\<close> on a dict given by its items in insertion order: an existing key keeps
  its place, a new key goes to the end.\<close>

fun dict_set :: "'k \<Rightarrow> 'v \<Rightarrow> ('k \<times> 'v) list \<Rightarrow> ('k \<times> 'v) list" where
  "dict_set k v [] = [(k, v)]"
| "dict_set k v ((k', v') # d) =
     (if k' = k then (k, v) # d else (k', v') # dict_set k v d)"

text \<open>\<open>str\<close> of a Python integer: its decimal digits, with a minus sign when negative.\<close>

definition digit_char :: "nat \<Rightarrow> char" where
  "digit_char d = ''0123456789'' ! d"

fun str_nat :: "nat \<Rightarrow> string" where
  "str_nat n =
     (if n < 10 then [digit_char n]
      else str_nat (n div 10) @ [digit_char (n mod 10)])"

declare str_nat.simps [simp del]

definition str_int :: "int \<Rightarrow> string" where
  "str_int i = (if i < 0 then CHR ''-'' # str_nat (nat (- i)) else str_nat (nat i))"

text \<open>The URL that the loop body of \<open>generate_page_urls\<close> builds for one page number.\<close>

definition page_url ::
  "query_lib \<Rightarrow> parsed_url \<Rightarrow> string \<Rightarrow> (string \<times> string list) list \<Rightarrow> int \<Rightarrow> string" where
  "page_url q parsed page_param query_params page =
     urlunparse q
       \<lparr>scheme = scheme parsed, netloc = netloc parsed, path = path parsed,
        params = params parsed,
        query = urlencode q (dict_set page_param [str_int page] query_params),
        fragment = fragment parsed\<rparr>"

text \<open>
  The \<open>while True\<close> loop of \<open>PaginationHandler.generate_page_urls\<close>. It is left only
  by the \<open>break\<close>, which needs a truthy \<open>max_pages\<close> (neither \<open>None\<close> nor zero); the
  result \<open>None\<close> of the model stands for a loop that never ends.
\<close>

partial_function (option) generate_page_urls_loop ::
  "query_lib \<Rightarrow> parsed_url \<Rightarrow> string \<Rightarrow> int \<Rightarrow> int option \<Rightarrow>
   (string \<times> string list) list \<Rightarrow> int \<Rightarrow> string list \<Rightarrow> string list option" where
  "generate_page_urls_loop q parsed page_param start_page max_pages query_params page urls =
     (if (case max_pages of None \<Rightarrow> False
          | Some m \<Rightarrow> m \<noteq> 0 \<and> page > start_page + m - 1)
      then Some urls
      else
        let query_params1 = dict_set page_param [str_int page] query_params;
            new_query = urlencode q query_params1;
            new_url = urlunparse q
                        \<lparr>scheme = scheme parsed, netloc = netloc parsed, path = path parsed,
                         params = params parsed, query = new_query,
                         fragment = fragment parsed\<rparr>
        in generate_page_urls_loop q parsed page_param start_page max_pages
             query_params1 (page + 1) (urls @ [new_url]))"

text \<open>\<open>PaginationHandler.generate_page_urls\<close>.\<close>

definition generate_page_urls ::
  "world \<Rightarrow> query_lib \<Rightarrow> string \<Rightarrow> string \<Rightarrow> int \<Rightarrow> int option \<Rightarrow> string list option" where
  "generate_page_urls w q base_url page_param start_page max_pages =
     (let parsed = urlparse w base_url;
          query_params = parse_qs q (query parsed)
      in generate_page_urls_loop q parsed page_param start_page max_pages
           query_params start_page [])"

text \<open>
  A parsed page as \<open>get_next_page_url\<close> sees it: for a CSS selector, the elements that
  \<open>soup.select\<close> returns, each given by its \<open>href\<close> attribute (\<open>None\<close> when the
  element has none).
\<close>

type_synonym soup = "string \<Rightarrow> string option list"

text \<open>The selectors of \<open>pagination_patterns['next_link']\<close>, in the order of the source; the
  last one contains the arrow U+2192 in UTF-8.\<close>

definition next_link_patterns :: "string list" where
  \<open>next_link_patterns =
     [''a[rel="next"]'', ''a.next'', ''a.pagination-next'', ''a[aria-label*="next" i]'',
      ''a[title*="next" i]'', ''a:contains("Next")'', ''a:contains(">")'',
      ''a:contains("'' @ [CHR 0xE2, CHR 0x86, CHR 0x92] @ ''")'']\<close>

text \<open>
  \<open>PaginationHandler.get_next_page_url\<close>: the first selector that matches and whose first
  element has a non-empty \<open>href\<close> gives the next URL, joined to the current one by
  \<open>urljoin\<close>, which is the first argument here.
\<close>

fun next_link_search ::
  "(string \<Rightarrow> string \<Rightarrow> string) \<Rightarrow> soup \<Rightarrow> string \<Rightarrow> string list \<Rightarrow> string option" where
  "next_link_search join_fn page current_url [] = None"
| "next_link_search join_fn page current_url (selector # rest) =
     (case page selector of
        [] \<Rightarrow> next_link_search join_fn page current_url rest
      | element # _ \<Rightarrow>
          (case element of
             None \<Rightarrow> next_link_search join_fn page current_url rest
           | Some href \<Rightarrow>
               if href \<noteq> [] then Some (join_fn current_url href)
               else next_link_search join_fn page current_url rest))"

definition get_next_page_url ::
  "(string \<Rightarrow> string \<Rightarrow> string) \<Rightarrow> soup \<Rightarrow> string \<Rightarrow> string option" where
  "get_next_page_url join_fn page current_url =
     next_link_search join_fn page current_url next_link_patterns"

section \<open>Data processor (utils/data\_processor.py)\<close>

text \<open>
  The data handed to \<open>calculate_hash\<close>: strings, dicts with string keys (the list of
  their items in insertion order) and lists, with integers, booleans and \<open>None\<close> as
  further leaves. The encoder of string literals of the json module and
  \<open>hashlib.md5(...).hexdigest()\<close> are outside the repository.
\<close>

datatype json = JNull | JBool bool | JInt int | JStr string | JList "json list"
  | JDict "(string \<times> json) list"

record hash_lib =
  json_string :: "string \<Rightarrow> string"
  md5_hexdigest :: "string \<Rightarrow> string"

text \<open>\<open>sep.join(parts)\<close>.\<close>

fun join :: "string \<Rightarrow> string list \<Rightarrow> string" where
  "join sep [] = []"
| "join sep [x] = x"
| "join sep (x # y # ys) = x @ sep @ join sep (y # ys)"

text \<open>
  \<open>json.dumps(data, sort_keys=True)\<close> with the default separators: the items of every
  dict, at every depth, are written in the order of their keys.
\<close>

function (sequential) json_dumps :: "hash_lib \<Rightarrow> json \<Rightarrow> string" where
  "json_dumps h JNull = ''null''"
| "json_dumps h (JBool b) = (if b then ''true'' else ''false'')"
| "json_dumps h (JInt i) = str_int i"
| "json_dumps h (JStr s) = json_string h s"
| "json_dumps h (JList xs) = ''['' @ join '', '' (map (json_dumps h) xs) @ '']''"
| "json_dumps h (JDict d) =
     ''{'' @ join '', '' (map (\<lambda>kv. json_string h (fst kv) @ '': '' @ json_dumps h (snd kv))
                            (sort_key fst d)) @ ''}''"
  by pat_completeness auto
termination
proof (relation "measure (\<lambda>(h, j). size j)")
  show "wf (measure (\<lambda>(h, j). size j))" by simp
next
  fix h :: hash_lib and xs :: "json list" and x :: json
  assume "x \<in> set xs"
  from size_list_estimation'[OF this, of "size x" size]
  show "((h, x), h, JList xs) \<in> measure (\<lambda>(h, j). size j)" by simp
next
  fix h :: hash_lib and d :: "(string \<times> json) list" and kv :: "string \<times> json"
  assume "kv \<in> set (sort_key fst d)"
  then have "kv \<in> set d" by simp
  from size_list_estimation'[OF this, of "size (snd kv)" "size_prod (\<lambda>x. 0) size"]
  show "((h, snd kv), h, JDict d) \<in> measure (\<lambda>(h, j). size j)"
    by (cases kv) simp
qed

text \<open>\<open>str(data)\<close> for data that is neither a dict nor a list.\<close>

definition py_str :: "json \<Rightarrow> string" where
  "py_str data =
     (case data of
        JStr s \<Rightarrow> s
      | JInt i \<Rightarrow> str_int i
      | JBool b \<Rightarrow> (if b then ''True'' else ''False'')
      | _ \<Rightarrow> ''None'')"

text \<open>\<open>DataProcessor.calculate_hash\<close>.\<close>

definition calculate_hash :: "hash_lib \<Rightarrow> json \<Rightarrow> string" where
  "calculate_hash h data =
     (let data_str = (case data of
                        JDict d \<Rightarrow> json_dumps h data
                      | JList xs \<Rightarrow> json_dumps h data
                      | _ \<Rightarrow> py_str data)
      in md5_hexdigest h data_str)"

text \<open>The state of a \<open>DataProcessor\<close> and \<open>DataProcessor.is_duplicate\<close>.\<close>

record data_processor =
  seen_hashes :: "string set"
  duplicate_count :: int

definition data_processor_init :: data_processor where
  "data_processor_init = \<lparr>seen_hashes = {}, duplicate_count = 0\<rparr>"

definition is_duplicate :: "hash_lib \<Rightarrow> json \<Rightarrow> data_processor \<Rightarrow> bool \<times> data_processor" where
  "is_duplicate h data dp =
     (let data_hash = calculate_hash h data
      in if data_hash \<in> seen_hashes dp
         then (True, dp\<lparr>duplicate_count := duplicate_count dp + 1\<rparr>)
         else (False, dp\<lparr>seen_hashes := insert data_hash (seen_hashes dp)\<rparr>))"







section \<open>Web scraper (scrapers/web\_scraper.py)\<close>

text \<open>A scraped result is a dict with string keys; the selectors argument is a dict too.\<close>

type_synonym result = "(string \<times> json) list"
type_synonym selectors = "(string \<times> string) list"

text \<open>
  The scrapers that \<open>WebScraper\<close> drives, as transitions on their state \<open>'h\<close>:
  \<open>scrape_sync\<close> and \<open>scrape_async\<close> of the HTML scraper and of the browser scraper
  (raising, returning \<open>None\<close> or returning a result), \<open>HTMLScraper.extract_data\<close> on a
  page source, \<open>_make_request_sync\<close> followed by \<open>response.text\<close>, the page source of
  the browser driver, BeautifulSoup, \<open>urljoin\<close>, and the hash functions of the data
  processor.
\<close>

record 'h scrapers =
  html_scrape_sync :: "string \<Rightarrow> selectors option \<Rightarrow> 'h \<Rightarrow> (py_error + result option) \<times> 'h"
  html_scrape_async :: "string \<Rightarrow> selectors option \<Rightarrow> 'h \<Rightarrow> (py_error + result option) \<times> 'h"
  browser_scrape_sync :: "string \<Rightarrow> 'h \<Rightarrow> (py_error + result option) \<times> 'h"
  browser_scrape_async :: "string \<Rightarrow> 'h \<Rightarrow> (py_error + result option) \<times> 'h"
  extract_data :: "json \<Rightarrow> selectors \<Rightarrow> string \<Rightarrow> py_error + json"
  request_text :: "string \<Rightarrow> 'h \<Rightarrow> (py_error + string option) \<times> 'h"
  driver_page_source :: "'h \<Rightarrow> string option"
  make_soup :: "json \<Rightarrow> soup"
  join_url :: "string \<Rightarrow> string \<Rightarrow> string"
  hash_functions :: hash_lib

text \<open>
  The state of a \<open>WebScraper\<close>: configuration, the state of its scrapers, the data
  processor, the lists \<open>results\<close> and \<open>errors\<close> (each error with its URL and its text), and
  the trace of the URLs handed to \<open>scrape_single_url\<close>, which the source logs.
\<close>

record 'h web_scraper =
  ws_config :: scraping_config
  scraper_state :: 'h
  data_processor :: data_processor
  results :: "result list"
  errors :: "(string \<times> string) list"
  scraped_urls :: "string list"

definition web_scraper_init :: "scraping_config \<Rightarrow> 'h \<Rightarrow> 'h web_scraper" where
  "web_scraper_init cfg h =
     \<lparr>ws_config = cfg, scraper_state = h, data_processor = data_processor_init,
      results = [], errors = [], scraped_urls = []\<rparr>"

text \<open>\<open>str(e)\<close> of an exception.\<close>

definition error_text :: "py_error \<Rightarrow> string" where
  "error_text e = (case e of KeyError \<Rightarrow> ''KeyError'' | OtherError msg \<Rightarrow> msg)"

text \<open>
  The body shared by \<open>scrape_single_url\<close> and \<open>scrape_single_url_async\<close>, which differ
  only in the scrapers they call. Every exception is caught and recorded in \<open>errors\<close>; a
  falsy result (\<open>None\<close> or an empty dict) is recorded as \<open>No result returned\<close>; a truthy
  result is returned, and appended to \<open>results\<close> unless it is a duplicate.
\<close>

definition scrape_single_url_with ::
  "(string \<Rightarrow> selectors option \<Rightarrow> 'h \<Rightarrow> (py_error + result option) \<times> 'h) \<Rightarrow>
   (string \<Rightarrow> 'h \<Rightarrow> (py_error + result option) \<times> 'h) \<Rightarrow>
   'h scrapers \<Rightarrow> string \<Rightarrow> selectors option \<Rightarrow> bool \<Rightarrow> 'h web_scraper \<Rightarrow>
   result option \<times> 'h web_scraper" where
  "scrape_single_url_with html browser c url sel use_browser s =
     (let s0 = s\<lparr>scraped_urls := scraped_urls s @ [url]\<rparr>;
          (attempt, h1) =
            (if use_browser
             then (case browser url (scraper_state s0) of
                     (Inl e, h) \<Rightarrow> (Inl e, h)
                   | (Inr None, h) \<Rightarrow> (Inr None, h)
                   | (Inr (Some d), h) \<Rightarrow>
                       (case (d, map_of d ''page_source'', sel) of
                          (_ # _, Some src, Some (x # xs)) \<Rightarrow>
                            (case extract_data c src (x # xs) url of
                               Inl e \<Rightarrow> (Inl e, h)
                             | Inr data \<Rightarrow> (Inr (Some (dict_set ''data'' data d)), h))
                        | _ \<Rightarrow> (Inr (Some d), h)))
             else html url sel (scraper_state s0));
          s1 = s0\<lparr>scraper_state := h1\<rparr>
      in case attempt of
           Inl e \<Rightarrow> (None, s1\<lparr>errors := errors s1 @ [(url, error_text e)]\<rparr>)
         | Inr None \<Rightarrow> (None, s1\<lparr>errors := errors s1 @ [(url, ''No result returned'')]\<rparr>)
         | Inr (Some []) \<Rightarrow>
             (None, s1\<lparr>errors := errors s1 @ [(url, ''No result returned'')]\<rparr>)
         | Inr (Some (kv # d)) \<Rightarrow>
             (case is_duplicate (hash_functions c) (JDict (kv # d)) (data_processor s1) of
                (True, dp) \<Rightarrow> (Some (kv # d), s1\<lparr>data_processor := dp\<rparr>)
              | (False, dp) \<Rightarrow>
                  (Some (kv # d),
                   s1\<lparr>data_processor := dp, results := results s1 @ [kv # d]\<rparr>)))"

definition scrape_single_url ::
  "'h scrapers \<Rightarrow> string \<Rightarrow> selectors option \<Rightarrow> bool \<Rightarrow> 'h web_scraper \<Rightarrow>
   result option \<times> 'h web_scraper" where
  "scrape_single_url c = scrape_single_url_with (html_scrape_sync c) (browser_scrape_sync c) c"

definition scrape_single_url_async ::
  "'h scrapers \<Rightarrow> string \<Rightarrow> selectors option \<Rightarrow> bool \<Rightarrow> 'h web_scraper \<Rightarrow>
   result option \<times> 'h web_scraper" where
  "scrape_single_url_async c =
     scrape_single_url_with (html_scrape_async c) (browser_scrape_async c) c"

text \<open>
  \<open>asyncio.gather(*tasks, return_exceptions=True)\<close>: one entry per task, in the order of
  the tasks. The tasks are run one after the other in that order, which is one of the
  schedules of the event loop; each entry is the value the task returned.
\<close>

fun gather ::
  "(string \<Rightarrow> 'h web_scraper \<Rightarrow> result option \<times> 'h web_scraper) \<Rightarrow> string list \<Rightarrow>
   'h web_scraper \<Rightarrow> (py_error + result option) list \<times> 'h web_scraper" where
  "gather task [] s = ([], s)"
| "gather task (url # urls) s =
     (case task url s of
        (r, s1) \<Rightarrow> (case gather task urls s1 of (rs, s2) \<Rightarrow> (Inr r # rs, s2)))"

text \<open>The filter at the end of \<open>scrape_multiple_urls_async\<close>: only dicts are kept.\<close>

fun valid_results :: "(py_error + result option) list \<Rightarrow> result list" where
  "valid_results [] = []"
| "valid_results (Inr (Some d) # rs) = d # valid_results rs"
| "valid_results (_ # rs) = valid_results rs"

text \<open>
  \<open>WebScraper.scrape_multiple_urls_async\<close>. \<open>asyncio.Semaphore\<close> raises \<open>ValueError\<close>
  for a negative value; with the value zero no task ever acquires it, so with at least
  one URL the call does not return, which the result \<open>None\<close> stands for.
\<close>

definition scrape_multiple_urls_async ::
  "'h scrapers \<Rightarrow> string list \<Rightarrow> selectors option \<Rightarrow> bool \<Rightarrow> int option \<Rightarrow>
   'h web_scraper \<Rightarrow> ((py_error + result list) \<times> 'h web_scraper) option" where
  "scrape_multiple_urls_async c urls sel use_browser max_concurrent s =
     (let limit = (case max_concurrent of
                     None \<Rightarrow> concurrent_requests (ws_config s)
                   | Some m \<Rightarrow> if m \<noteq> 0 then m else concurrent_requests (ws_config s))
      in if limit < 0 then Some (Inl (OtherError ''ValueError''), s)
         else if limit = 0 \<and> urls \<noteq> [] then None
         else (case gather (\<lambda>url. scrape_single_url_async c url sel use_browser) urls s of
                 (rs, s1) \<Rightarrow> Some (Inr (valid_results rs), s1)))"

text \<open>
  The part of the loop body of \<open>scrape_with_pagination\<close> that obtains the page for the
  pagination analysis: the page source of the result, else the page source of the browser
  driver, else a second request for the current URL. \<open>None\<close> is the \<open>break\<close>.
\<close>

definition page_for_pagination ::
  "'h scrapers \<Rightarrow> string \<Rightarrow> bool \<Rightarrow> result \<Rightarrow> 'h web_scraper \<Rightarrow>
   (py_error + soup option) \<times> 'h web_scraper" where
  "page_for_pagination c current_url use_browser res s =
     (case map_of res ''page_source'' of
        Some src \<Rightarrow> (Inr (Some (make_soup c src)), s)
      | None \<Rightarrow>
          if use_browser
          then (case driver_page_source c (scraper_state s) of
                  None \<Rightarrow> (Inr None, s)
                | Some src \<Rightarrow>
                    if src \<noteq> [] then (Inr (Some (make_soup c (JStr src))), s)
                    else (Inr None, s))
          else (case request_text c current_url (scraper_state s) of
                  (Inl e, h) \<Rightarrow> (Inl e, s\<lparr>scraper_state := h\<rparr>)
                | (Inr None, h) \<Rightarrow> (Inr None, s\<lparr>scraper_state := h\<rparr>)
                | (Inr (Some body), h) \<Rightarrow>
                    (Inr (Some (make_soup c (JStr body))), s\<lparr>scraper_state := h\<rparr>)))"

text \<open>
  The \<open>while\<close> loop of \<open>WebScraper.scrape_with_pagination\<close>; \<open>page_count\<close> is the count
  before the increment at the head of the body. The only comparison of the next URL is
  with the current URL. The sleep between two pages does not change the state and is left
  out. The result \<open>None\<close> stands for a loop that never ends.
\<close>

partial_function (option) scrape_with_pagination_loop ::
  "'h scrapers \<Rightarrow> selectors option \<Rightarrow> int option \<Rightarrow> bool \<Rightarrow> string \<Rightarrow> int \<Rightarrow>
   result list \<Rightarrow> 'h web_scraper \<Rightarrow> ((py_error + result list) \<times> 'h web_scraper) option" where
  "scrape_with_pagination_loop c sel max_pages use_browser current_url page_count all_results s =
     (if current_url \<noteq> []
         \<and> (case max_pages of None \<Rightarrow> True | Some m \<Rightarrow> m = 0 \<or> page_count < m)
      then
        (case scrape_single_url c current_url sel use_browser s of
           (None, s1) \<Rightarrow> Some (Inr all_results, s1)
         | (Some [], s1) \<Rightarrow> Some (Inr all_results, s1)
         | (Some (kv # d), s1) \<Rightarrow>
             (case page_for_pagination c current_url use_browser (kv # d) s1 of
                (Inl e, s2) \<Rightarrow> Some (Inl e, s2)
              | (Inr None, s2) \<Rightarrow> Some (Inr (all_results @ [kv # d]), s2)
              | (Inr (Some page), s2) \<Rightarrow>
                  (case get_next_page_url (join_url c) page current_url of
                     None \<Rightarrow> Some (Inr (all_results @ [kv # d]), s2)
                   | Some next_url \<Rightarrow>
                       if next_url \<noteq> [] \<and> next_url \<noteq> current_url
                       then scrape_with_pagination_loop c sel max_pages use_browser
                              next_url (page_count + 1) (all_results @ [kv # d]) s2
                       else Some (Inr (all_results @ [kv # d]), s2))))
      else Some (Inr all_results, s))"

definition scrape_with_pagination ::
  "'h scrapers \<Rightarrow> string \<Rightarrow> selectors option \<Rightarrow> int option \<Rightarrow> bool \<Rightarrow>
   'h web_scraper \<Rightarrow> ((py_error + result list) \<times> 'h web_scraper) option" where
  "scrape_with_pagination c start_url sel max_pages use_browser s =
     scrape_with_pagination_loop c sel max_pages use_browser start_url 0 [] s"

section \<open>Example environments\<close>

text \<open>
  Concrete configurations and environments at which the theorems are evaluated. All hosts
  are \<open>a.test\<close>. In \<open>robots_down_world\<close> every read of robots.txt raises and every
  request is answered with status 200; in \<open>failing_world\<close> every request raises as well;
  in \<open>crawl_delay_world\<close> robots.txt allows everything and asks for a crawl delay of ten
  seconds; in \<open>deny_world\<close> robots.txt disallows everything.
\<close>

definition default_config :: scraping_config where
  "default_config =
     \<lparr>base_delay = 1, timeout = 30, max_retries = 3, concurrent_requests = 10,
      use_proxies = False, proxy_list = [], cfg_proxy_rotation = True,
      respect_robots_txt = True, crawl_delay = None\<rparr>"

definition proxy_config :: scraping_config where
  "proxy_config = default_config\<lparr>use_proxies := True, proxy_list := [''http://p1:8080'']\<rparr>"

definition robots_down_world :: world where
  "robots_down_world =
     \<lparr>urlparse = (\<lambda>u. \<lparr>scheme = ''http'', netloc = ''a.test'', path = u, params = [],
                        query = [], fragment = []\<rparr>),
      urljoin = (\<lambda>b r. b @ r),
      robots_fetch = (\<lambda>n u. ReadRaises),
      session_request = (\<lambda>n session u p. Response 200 ''ok''),
      random_pick = 0\<rparr>"

definition failing_world :: world where
  "failing_world =
     \<lparr>urlparse = (\<lambda>u. \<lparr>scheme = ''http'', netloc = ''a.test'', path = u, params = [],
                        query = [], fragment = []\<rparr>),
      urljoin = (\<lambda>b r. b @ r),
      robots_fetch = (\<lambda>n u. ReadRaises),
      session_request = (\<lambda>n session u p. RequestException),
      random_pick = 0\<rparr>"

definition crawl_delay_world :: world where
  "crawl_delay_world =
     \<lparr>urlparse = (\<lambda>u. \<lparr>scheme = ''http'', netloc = ''a.test'', path = u, params = [],
                        query = [], fragment = []\<rparr>),
      urljoin = (\<lambda>b r. b @ r),
      robots_fetch = (\<lambda>n u. RobotsTxt \<lparr>rules_allow = (\<lambda>ua url. True),
                                         rules_delay = (\<lambda>ua. Some 10)\<rparr>),
      session_request = (\<lambda>n session u p. Response 200 ''ok''),
      random_pick = 0\<rparr>"

definition deny_world :: world where
  "deny_world =
     \<lparr>urlparse = (\<lambda>u. \<lparr>scheme = ''http'', netloc = ''a.test'', path = u, params = [],
                        query = [], fragment = []\<rparr>),
      urljoin = (\<lambda>b r. b @ r),
      robots_fetch = (\<lambda>n u. RobotsTxt \<lparr>rules_allow = (\<lambda>ua url. False),
                                         rules_delay = (\<lambda>ua. None)\<rparr>),
      session_request = (\<lambda>n session u p. Response 200 ''ok''),
      random_pick = 0\<rparr>"




definition example_query_lib :: query_lib where
  "example_query_lib =
     \<lparr>parse_qs = (\<lambda>qs. if qs = [] then [] else [(''q'', [qs])]),
      urlencode = (\<lambda>d. concat (map (\<lambda>(k, vs). k @ ''='' @ concat vs @ '';'') d)),
      urlunparse = (\<lambda>u. scheme u @ ''://'' @ netloc u @ path u @ ''?'' @ query u)\<rparr>"

definition example_hash_lib :: hash_lib where
  "example_hash_lib = \<lparr>json_string = (\<lambda>s. ''<'' @ s @ ''>''), md5_hexdigest = (\<lambda>s. s)\<rparr>"

text \<open>
  Scrapers over a site with four pages: \<open>/1\<close> and \<open>/2\<close> link to each other as next
  page, \<open>/self\<close> links to itself, \<open>/bad\<close> cannot be scraped, and every other page has
  no next link.
\<close>

definition example_scrapers :: "unit scrapers" where
  \<open>example_scrapers =
     \<lparr>html_scrape_sync = (\<lambda>url sel h.
         (if url = ''http://a.test/bad'' then Inr None else Inr (Some [(''url'', JStr url)]), h)),
      html_scrape_async = (\<lambda>url sel h.
         (if url = ''http://a.test/bad'' then Inr None else Inr (Some [(''url'', JStr url)]), h)),
      browser_scrape_sync = (\<lambda>url h. (Inr None, h)),
      browser_scrape_async = (\<lambda>url h. (Inr None, h)),
      extract_data = (\<lambda>src sel url. Inr JNull),
      request_text = (\<lambda>url h. (Inr (Some url), h)),
      driver_page_source = (\<lambda>h. None),
      make_soup = (\<lambda>src selector.
         if selector = ''a[rel="next"]''
         then (if src = JStr ''http://a.test/1'' then [Some ''http://a.test/2'']
               else if src = JStr ''http://a.test/2'' then [Some ''http://a.test/1'']
               else if src = JStr ''http://a.test/self'' then [Some ''http://a.test/self'']
               else [])
         else []),
      join_url = (\<lambda>base href. href),
      hash_functions = example_hash_lib\<rparr>\<close>


definition flaky_world :: world where
  "flaky_world =
     \<lparr>urlparse = (\<lambda>u. \<lparr>scheme = ''http'', netloc = ''a.test'', path = u, params = [],
                        query = [], fragment = []\<rparr>),
      urljoin = (\<lambda>b r. b @ r),
      robots_fetch = (\<lambda>n u. ReadRaises),
      session_request = (\<lambda>n session u p.
         if 0 < adapter_max_retries session then Response 200 ''ok'' else RequestException),
      random_pick = 0\<rparr>"

lemmas eval_defs =
  rp_read_def rp_can_fetch_def rp_crawl_delay_def new_robots_parser_def get_sync_session_def
  make_request_sync_def can_fetch_def get_crawl_delay_def get_robots_parser_def
  wait_sync_def min_delay_def base_scraper_init_def rate_limiter_init_def
  default_config_def domain_of_def Let_def get_proxy_def proxy_manager_init_def
  new_proxy_stat_def proxy_config_def

lemmas ws_eval_defs =
  scrape_with_pagination_def scrape_single_url_def scrape_single_url_async_def
  scrape_single_url_with_def page_for_pagination_def get_next_page_url_def
  next_link_patterns_def example_scrapers_def web_scraper_init_def is_duplicate_def
  calculate_hash_def data_processor_init_def example_hash_lib_def Let_def
  scrape_multiple_urls_async_def default_config_def

section \<open>Theorems\<close>

subsection \<open>What the robots lookups and the request function leave unchanged\<close>


lemma get_robots_parser_keeps:
  assumes "get_robots_parser w url s = (rp, s1)"
  shows "config s1 = config s" and "rate_limiter s1 = rate_limiter s"
    and "proxy_manager s1 = proxy_manager s" and "session_requests s1 = session_requests s"
    and "requests_made s1 = requests_made s"
    and "successful_requests s1 = successful_requests s"
    and "failed_requests s1 = failed_requests s"
    and "robots_cache s d = Some c \<Longrightarrow> robots_cache s1 d = Some c"
    and "sync_session s1 = sync_session s"
  using assms
  by (auto simp: get_robots_parser_def Let_def split: if_splits option.splits)

lemma can_fetch_keeps:
  assumes "can_fetch w url ua s = (b, s1)"
  shows "config s1 = config s" and "rate_limiter s1 = rate_limiter s"
    and "proxy_manager s1 = proxy_manager s" and "session_requests s1 = session_requests s"
    and "requests_made s1 = requests_made s"
    and "successful_requests s1 = successful_requests s"
    and "failed_requests s1 = failed_requests s"
    and "robots_cache s d = Some c \<Longrightarrow> robots_cache s1 d = Some c"
    and "sync_session s1 = sync_session s"
proof -
  obtain rp where g: "get_robots_parser w url s = (rp, s1)"
    using assms by (auto simp: can_fetch_def split: prod.splits option.splits)
  show "config s1 = config s" and "rate_limiter s1 = rate_limiter s"
    and "proxy_manager s1 = proxy_manager s" and "session_requests s1 = session_requests s"
    and "requests_made s1 = requests_made s"
    and "successful_requests s1 = successful_requests s"
    and "failed_requests s1 = failed_requests s"
    and "robots_cache s d = Some c \<Longrightarrow> robots_cache s1 d = Some c"
    and "sync_session s1 = sync_session s"
    using get_robots_parser_keeps[OF g] by auto
qed


lemma make_request_sync_denied:
  assumes "can_fetch w url ''*'' s = (False, s1)"
  shows "make_request_sync w now url s = (Inr None, s1)"
  using assms by (simp add: make_request_sync_def)

text \<open>
  The shape of a request that robots.txt allows: either \<open>get_proxy\<close> raises after the
  rate limiter, or one session request is sent, through the proxy drawn, and its answer
  decides the result.
\<close>

lemma make_request_sync_allowed:
  assumes cf: "can_fetch w url ''*'' s = (True, s1)"
  obtains (key_error) pm e where
      "proxy_manager s1 = Some pm"
      "get_proxy (random_pick w)
         (last_request_time (snd (wait_sync (config s1) now (rate_limiter s1)))) pm = Inl e"
      "make_request_sync w now url s
         = (Inl e, s1\<lparr>rate_limiter := snd (wait_sync (config s1) now (rate_limiter s1))\<rparr>)"
  | (sent) proxy pmo r s' where
      "(proxy_manager s1 = None \<and> proxy = None \<and> pmo = None)
       \<or> (\<exists>pm pm1. proxy_manager s1 = Some pm
             \<and> get_proxy (random_pick w)
                  (last_request_time (snd (wait_sync (config s1) now (rate_limiter s1)))) pm
                 = Inr (proxy, pm1)
             \<and> pmo = Some pm1)"
      "make_request_sync w now url s = (r, s')"
      "config s' = config s1" "robots_cache s' = robots_cache s1"
      "robots_reads s' = robots_reads s1"
      "rate_limiter s' = snd (wait_sync (config s1) now (rate_limiter s1))"
      "proxy_manager s' = pmo"
      "requests_made s' = requests_made s1 + 1"
      "session_requests s'
         = session_requests s1
           @ [(url, case proxy of None \<Rightarrow> None | Some p \<Rightarrow> if p \<noteq> [] then Some p else None)]"
      "sync_session s' = snd (get_sync_session (config s1) (sync_session s1))"
      "r = (case session_request w (length (session_requests s1))
                   (fst (get_sync_session (config s1) (sync_session s1))) url
                   (case proxy of None \<Rightarrow> None | Some p \<Rightarrow> if p \<noteq> [] then Some p else None) of
              RequestException \<Rightarrow> Inr None
            | Response code body \<Rightarrow>
                if code = 200 then Inr (Some \<lparr>status_code = code, resp_text = body\<rparr>)
                else Inr None)"
proof -
  obtain sl rl where ws: "wait_sync (config s1) now (rate_limiter s1) = (sl, rl)"
    by (cases "wait_sync (config s1) now (rate_limiter s1)")
  obtain session kept where gs: "get_sync_session (config s1) (sync_session s1) = (session, kept)"
    by (cases "get_sync_session (config s1) (sync_session s1)")
  show ?thesis
  proof (cases "proxy_manager s1")
    case None
    let ?x = "session_request w (length (session_requests s1)) session url None"
    show ?thesis
    proof (rule sent[of None None
              "fst (make_request_sync w now url s)" "snd (make_request_sync w now url s)"])
      show "(proxy_manager s1 = None \<and> None = None \<and> None = None)
       \<or> (\<exists>pm pm1. proxy_manager s1 = Some pm
             \<and> get_proxy (random_pick w)
                  (last_request_time (snd (wait_sync (config s1) now (rate_limiter s1)))) pm
                 = Inr (None, pm1)
             \<and> None = Some pm1)"
        using None by simp
    qed (cases ?x; simp add: make_request_sync_def cf ws gs None Let_def)+
  next
    case (Some pm)
    show ?thesis
    proof (cases "get_proxy (random_pick w) (last_request_time rl) pm")
      case (Inl e)
      show ?thesis
      proof (rule key_error[of pm e])
        show "proxy_manager s1 = Some pm" by (rule Some)
        show "get_proxy (random_pick w)
                (last_request_time (snd (wait_sync (config s1) now (rate_limiter s1)))) pm = Inl e"
          using Inl ws by simp
        show "make_request_sync w now url s
         = (Inl e, s1\<lparr>rate_limiter := snd (wait_sync (config s1) now (rate_limiter s1))\<rparr>)"
          using Inl by (simp add: make_request_sync_def cf ws Some Let_def)
      qed
    next
      case (Inr x)
      obtain proxy pm1 where x: "x = (proxy, pm1)" by (cases x)
      let ?pa = "case proxy of None \<Rightarrow> None | Some p \<Rightarrow> if p \<noteq> [] then Some p else None"
      let ?x = "session_request w (length (session_requests s1)) session url ?pa"
      show ?thesis
      proof (rule sent[of proxy "Some pm1"
                "fst (make_request_sync w now url s)" "snd (make_request_sync w now url s)"])
        show "(proxy_manager s1 = None \<and> proxy = None \<and> Some pm1 = None)
         \<or> (\<exists>pm pm1'. proxy_manager s1 = Some pm
             \<and> get_proxy (random_pick w)
                  (last_request_time (snd (wait_sync (config s1) now (rate_limiter s1)))) pm
                 = Inr (proxy, pm1')
             \<and> Some pm1 = Some pm1')"
          using Some Inr x ws by simp
      qed (cases ?x; simp add: make_request_sync_def cf ws gs Some Inr x Let_def)+
    qed
  qed
qed



lemma make_request_sync_rate_limiter:
  assumes "fst (can_fetch w url ''*'' s)"
  shows "rate_limiter (snd (make_request_sync w now url s))
           = snd (wait_sync (config s) now (rate_limiter s))"
proof -
  obtain s1 where cf: "can_fetch w url ''*'' s = (True, s1)"
    using assms by (cases "can_fetch w url ''*'' s") auto
  have "rate_limiter (snd (make_request_sync w now url s))
           = snd (wait_sync (config s1) now (rate_limiter s1))"
    using cf by (cases rule: make_request_sync_allowed[where now = now]) auto
  with can_fetch_keeps(1,2)[OF cf] show ?thesis by simp
qed

lemma get_proxy_health:
  assumes "get_proxy pick now pm = Inr (r, pm')" and "proxy_stats pm q = Some st"
  shows "\<exists>st'. proxy_stats pm' q = Some st' \<and> failures st' = failures st
           \<and> response_time st' = response_time st \<and> active st' = active st
           \<and> requests st' = requests st + (if r = Some q then 1 else 0)"
  using assms
  by (auto simp: get_proxy_def Let_def split: if_splits option.splits prod.splits)

lemma make_request_sync_proxy_manager:
  "proxy_manager (snd (make_request_sync w now url s)) = proxy_manager s
   \<or> (\<exists>pm t r pm'. proxy_manager s = Some pm
        \<and> get_proxy (random_pick w) t pm = Inr (r, pm')
        \<and> proxy_manager (snd (make_request_sync w now url s)) = Some pm')"
proof -
  obtain b s1 where cf: "can_fetch w url ''*'' s = (b, s1)"
    by (cases "can_fetch w url ''*'' s")
  note k = can_fetch_keeps(3)[OF cf]
  have "proxy_manager (snd (make_request_sync w now url s)) = proxy_manager s1
   \<or> (\<exists>pm t r pm'. proxy_manager s1 = Some pm
        \<and> get_proxy (random_pick w) t pm = Inr (r, pm')
        \<and> proxy_manager (snd (make_request_sync w now url s)) = Some pm')"
  proof (cases b)
    case False
    with cf make_request_sync_denied[of w url s s1 now] show ?thesis by simp
  next
    case True
    with cf have cf': "can_fetch w url ''*'' s = (True, s1)" by simp
    from cf' show ?thesis
    proof (cases rule: make_request_sync_allowed[where now = now])
      case (key_error pm e)
      then show ?thesis by simp
    next
      case (sent proxy pmo r s')
      from sent(1) show ?thesis
      proof
        assume "proxy_manager s1 = None \<and> proxy = None \<and> pmo = None"
        then show ?thesis using sent(2,7) by simp
      next
        assume "\<exists>pm pm1. proxy_manager s1 = Some pm
             \<and> get_proxy (random_pick w)
                  (last_request_time (snd (wait_sync (config s1) now (rate_limiter s1)))) pm
                 = Inr (proxy, pm1)
             \<and> pmo = Some pm1"
        then show ?thesis using sent(2,7) by auto
      qed
    qed
  qed
  then show ?thesis unfolding k .
qed

subsection \<open>Proxy health policy\<close>

text \<open>
  Claim C3. After a failure report for an entry that is active, the entry is inactive
  exactly when its failure count divided by its request count exceeds 0.5 and its request
  count exceeds 5; the report adds one to the failure count and leaves the request count.
\<close>

theorem mark_proxy_failed_disables_iff:
  assumes "proxy_stats pm p = Some st" and "active st"
  shows "\<exists>st'. proxy_stats (mark_proxy_failed p pm) p = Some st'
           \<and> failures st' = failures st + 1 \<and> requests st' = requests st
           \<and> (\<not> active st' \<longleftrightarrow>
                real_of_int (failures st') / real_of_int (requests st') > 0.5
                \<and> requests st' > 5)"
proof -
  have "max 1 (requests st) = requests st" if "requests st > 5"
    using that by simp
  with assms show ?thesis
    by (auto simp: mark_proxy_failed_def Let_def)
qed

text \<open>The two entries of the specification: ten requests and a sixth failure disable the
  entry; four requests and a fourth failure leave it active.\<close>

theorem mark_proxy_failed_disables_iff_witness:
  "(\<exists>st'. proxy_stats (mark_proxy_failed ''p1''
             \<lparr>proxies = [''p1''], current_proxy_index = 0,
              proxy_stats = [''p1'' \<mapsto> \<lparr>requests = 10, failures = 5, last_used = 0,
                                         response_time = 0, active = True\<rparr>],
              proxy_rotation = True\<rparr>) ''p1'' = Some st'
          \<and> failures st' = 6 \<and> requests st' = 10 \<and> \<not> active st')
   \<and> (\<exists>st'. proxy_stats (mark_proxy_failed ''p1''
             \<lparr>proxies = [''p1''], current_proxy_index = 0,
              proxy_stats = [''p1'' \<mapsto> \<lparr>requests = 4, failures = 3, last_used = 0,
                                         response_time = 0, active = True\<rparr>],
              proxy_rotation = True\<rparr>) ''p1'' = Some st'
          \<and> failures st' = 4 \<and> requests st' = 4 \<and> active st')"
  using mark_proxy_failed_disables_iff
          [of "\<lparr>proxies = [''p1''], current_proxy_index = 0,
              proxy_stats = [''p1'' \<mapsto> \<lparr>requests = 10, failures = 5, last_used = 0,
                                         response_time = 0, active = True\<rparr>],
              proxy_rotation = True\<rparr>" "''p1''"
              "\<lparr>requests = 10, failures = 5, last_used = 0,
                                         response_time = 0, active = True\<rparr>"]
        mark_proxy_failed_disables_iff
          [of "\<lparr>proxies = [''p1''], current_proxy_index = 0,
              proxy_stats = [''p1'' \<mapsto> \<lparr>requests = 4, failures = 3, last_used = 0,
                                         response_time = 0, active = True\<rparr>],
              proxy_rotation = True\<rparr>" "''p1''"
              "\<lparr>requests = 4, failures = 3, last_used = 0,
                                         response_time = 0, active = True\<rparr>"]
  by auto

subsection \<open>Rate gate\<close>

text \<open>
  Claim C4, as stated, fails: the rate limiter never sees the crawl delay of robots.txt.
  With a base delay of one second and a robots crawl delay of ten seconds, a request at
  time 100 is dispatched at once and a request half a second later is dispatched at
  time 101, one second after the first and not ten.
\<close>

theorem rate_gate_ignores_robots_delay_counterexample:
  "fst (get_crawl_delay crawl_delay_world ''http://a.test/x'' ''*''
          (snd (make_request_sync crawl_delay_world 100 ''http://a.test/x''
                   (base_scraper_init default_config 0)))) = Some 10
   \<and> base_delay default_config = 1
   \<and> last_request_time (rate_limiter
          (snd (make_request_sync crawl_delay_world 100 ''http://a.test/x''
                   (base_scraper_init default_config 0)))) = 100
   \<and> last_request_time (rate_limiter
          (snd (make_request_sync crawl_delay_world (201/2) ''http://a.test/x''
             (snd (make_request_sync crawl_delay_world 100 ''http://a.test/x''
                   (base_scraper_init default_config 0)))))) = 101"
  by (simp add: eval_defs crawl_delay_world_def)

lemma min_delay_max:
  "0 \<le> base_delay cfg \<Longrightarrow>
   min_delay cfg = max (base_delay cfg) (max (configured_delay cfg) 0)"
  by (auto simp: min_delay_def configured_delay_def split: option.splits)

text \<open>
  Claim C4, amended. With a base delay that is not negative, the wait of the rate limiter
  is the maximum of the base delay, the crawl delay of the configuration and zero, minus
  the time since the last dispatch, and no wait when that is not positive. A request that
  robots.txt allows is dispatched after that wait, so two consecutive dispatches are at
  least the maximum of the base delay and the configured crawl delay apart.
\<close>

theorem rate_gate_configured_delay:
  assumes "0 \<le> base_delay (config s)" and "fst (can_fetch w url ''*'' s)"
  shows "fst (wait_sync (config s) now (rate_limiter s))
           = max 0 (max (base_delay (config s)) (max (configured_delay (config s)) 0)
                    - (now - last_request_time (rate_limiter s)))
         \<and> last_request_time (rate_limiter (snd (make_request_sync w now url s)))
           = now + fst (wait_sync (config s) now (rate_limiter s))
         \<and> last_request_time (rate_limiter (snd (make_request_sync w now url s)))
             - last_request_time (rate_limiter s)
           \<ge> max (base_delay (config s)) (configured_delay (config s))"
proof -
  let ?D = "max (base_delay (config s)) (max (configured_delay (config s)) 0)"
  have m: "min_delay (config s) = ?D"
    using assms(1) by (rule min_delay_max)
  have a: "fst (wait_sync (config s) now (rate_limiter s))
             = max 0 (?D - (now - last_request_time (rate_limiter s)))"
    unfolding wait_sync_def Let_def m by (simp add: max_def)
  have b: "last_request_time (snd (wait_sync (config s) now (rate_limiter s)))
             = now + fst (wait_sync (config s) now (rate_limiter s))"
    by (simp add: wait_sync_def Let_def)
  have c: "now + max 0 (?D - (now - last_request_time (rate_limiter s)))
             - last_request_time (rate_limiter s) \<ge> ?D"
    by linarith
  have d: "?D \<ge> max (base_delay (config s)) (configured_delay (config s))"
    by linarith
  show ?thesis
    unfolding make_request_sync_rate_limiter[OF assms(2)] b
    using a c d by linarith
qed

theorem rate_gate_configured_delay_witness:
  "0 \<le> base_delay (config (base_scraper_init default_config 0))
   \<and> fst (can_fetch crawl_delay_world ''http://a.test/x'' ''*''
            (base_scraper_init default_config 0))
   \<and> fst (wait_sync (config (base_scraper_init default_config 0)) (1/2)
            (rate_limiter (base_scraper_init default_config 0))) = 1/2
   \<and> last_request_time (rate_limiter (snd (make_request_sync crawl_delay_world (1/2)
            ''http://a.test/x'' (base_scraper_init default_config 0)))) = 1"
proof -
  let ?s = "base_scraper_init default_config 0"
  have h1: "0 \<le> base_delay (config ?s)"
    by (simp add: base_scraper_init_def default_config_def)
  have h2: "fst (can_fetch crawl_delay_world ''http://a.test/x'' ''*'' ?s)"
    by (simp add: eval_defs crawl_delay_world_def)
  have v: "base_delay (config ?s) = 1" "configured_delay (config ?s) = 0"
    "last_request_time (rate_limiter ?s) = 0"
    by (simp_all add: base_scraper_init_def default_config_def configured_delay_def
          rate_limiter_init_def)
  from rate_gate_configured_delay[OF h1 h2, of "1/2"] h1 h2 show ?thesis
    unfolding v by simp
qed

subsection \<open>Proxy reports\<close>

text \<open>
  Claim C5, as stated, fails: the request function never calls \<open>mark_proxy_failed\<close> or
  \<open>mark_proxy_success\<close>. After a request through the proxy that raised, and after one
  that succeeded, the entry of the proxy counts one request, no failure, and its response
  time is still zero.
\<close>

theorem no_proxy_report_counterexample:
  "fst (make_request_sync failing_world 0 ''http://a.test/x'' (base_scraper_init proxy_config 0))
     = Inr None
   \<and> session_requests
        (snd (make_request_sync failing_world 0 ''http://a.test/x''
                (base_scraper_init proxy_config 0)))
     = [(''http://a.test/x'', Some ''http://p1:8080'')]
   \<and> map_option proxy_stats (proxy_manager
        (snd (make_request_sync failing_world 0 ''http://a.test/x''
                (base_scraper_init proxy_config 0))))
     = Some [''http://p1:8080'' \<mapsto> \<lparr>requests = 1, failures = 0, last_used = 1,
                                 response_time = 0, active = True\<rparr>]
   \<and> map_option proxy_stats (proxy_manager
        (snd (make_request_sync robots_down_world 0 ''http://a.test/x''
                (base_scraper_init proxy_config 0))))
     = Some [''http://p1:8080'' \<mapsto> \<lparr>requests = 1, failures = 0, last_used = 1,
                                 response_time = 0, active = True\<rparr>]"
  by (auto simp add: eval_defs failing_world_def robots_down_world_def fun_eq_iff)

text \<open>
  Claim C5, amended. Whatever the outcome of a request (exception, status 200 or another
  status), the failure count, the response time and the active flag of every proxy entry
  are the same after the request as before it: the request function reports neither
  failures nor successes to the pool.
\<close>

theorem request_makes_no_proxy_report:
  assumes "proxy_manager s = Some pm" and "proxy_stats pm p = Some st"
  shows "\<exists>pm' st'. proxy_manager (snd (make_request_sync w now url s)) = Some pm'
           \<and> proxy_stats pm' p = Some st'
           \<and> failures st' = failures st
           \<and> response_time st' = response_time st
           \<and> active st' = active st"
proof -
  from make_request_sync_proxy_manager[of w now url s]
  consider (same) "proxy_manager (snd (make_request_sync w now url s)) = proxy_manager s"
    | (drawn) pm0 t r pm' where "proxy_manager s = Some pm0"
        and "get_proxy (random_pick w) t pm0 = Inr (r, pm')"
        and "proxy_manager (snd (make_request_sync w now url s)) = Some pm'"
    by blast
  then show ?thesis
  proof cases
    case same
    then show ?thesis using assms by simp
  next
    case drawn
    from drawn(1) assms(1) have e: "pm0 = pm" by simp
    from get_proxy_health[OF drawn(2)[unfolded e] assms(2)] drawn(3)
    show ?thesis by auto
  qed
qed

theorem request_makes_no_proxy_report_witness:
  "proxy_manager (base_scraper_init proxy_config 0)
     = Some (proxy_manager_init [''http://p1:8080''] True)
   \<and> proxy_stats (proxy_manager_init [''http://p1:8080''] True) ''http://p1:8080''
     = Some new_proxy_stat
   \<and> (\<exists>pm' st'. proxy_manager (snd (make_request_sync failing_world 0 ''http://a.test/x''
                       (base_scraper_init proxy_config 0))) = Some pm'
          \<and> proxy_stats pm' ''http://p1:8080'' = Some st'
          \<and> failures st' = 0 \<and> response_time st' = 0 \<and> active st')"
proof -
  have h1: "proxy_manager (base_scraper_init proxy_config 0)
              = Some (proxy_manager_init [''http://p1:8080''] True)"
    by (simp add: base_scraper_init_def proxy_config_def default_config_def)
  have h2: "proxy_stats (proxy_manager_init [''http://p1:8080''] True) ''http://p1:8080''
              = Some new_proxy_stat"
    by (simp add: proxy_manager_init_def)
  from request_makes_no_proxy_report[OF h1 h2, of failing_world 0 "''http://a.test/x''"] h1 h2
  show ?thesis by (simp add: new_proxy_stat_def)
qed

subsection \<open>Robots gate\<close>




text \<open>
  Claim C8. For a URL that the robots check denies, the request function returns \<open>None\<close>
  and leaves the rate limiter, the proxy manager, the trace of session requests and the
  request counter unchanged.
\<close>

theorem robots_denied_no_effect:
  assumes "fst (can_fetch w url ''*'' s) = False"
  shows "\<exists>s'. make_request_sync w now url s = (Inr None, s')
           \<and> rate_limiter s' = rate_limiter s
           \<and> proxy_manager s' = proxy_manager s
           \<and> session_requests s' = session_requests s
           \<and> requests_made s' = requests_made s"
proof -
  obtain s1 where cf: "can_fetch w url ''*'' s = (False, s1)"
    using assms by (cases "can_fetch w url ''*'' s") auto
  have "make_request_sync w now url s = (Inr None, s1)"
    using cf by (rule make_request_sync_denied)
  with can_fetch_keeps[OF cf] show ?thesis by simp
qed

theorem robots_denied_no_effect_witness:
  "fst (can_fetch deny_world ''http://a.test/x'' ''*'' (base_scraper_init proxy_config 0)) = False
   \<and> fst (make_request_sync deny_world 5 ''http://a.test/x'' (base_scraper_init proxy_config 0))
       = Inr None
   \<and> rate_limiter (snd (make_request_sync deny_world 5 ''http://a.test/x''
        (base_scraper_init proxy_config 0))) = rate_limiter_init 0
   \<and> proxy_manager (snd (make_request_sync deny_world 5 ''http://a.test/x''
        (base_scraper_init proxy_config 0))) = Some (proxy_manager_init [''http://p1:8080''] True)
   \<and> session_requests (snd (make_request_sync deny_world 5 ''http://a.test/x''
        (base_scraper_init proxy_config 0))) = []"
proof -
  have h: "fst (can_fetch deny_world ''http://a.test/x'' ''*'' (base_scraper_init proxy_config 0))
             = False"
    by (simp add: eval_defs deny_world_def)
  have i: "rate_limiter (base_scraper_init proxy_config 0) = rate_limiter_init 0"
    "proxy_manager (base_scraper_init proxy_config 0)
       = Some (proxy_manager_init [''http://p1:8080''] True)"
    "session_requests (base_scraper_init proxy_config 0) = []"
    by (simp_all add: base_scraper_init_def proxy_config_def default_config_def)
  from robots_denied_no_effect[OF h, of 5] h i show ?thesis by auto
qed

subsection \<open>Retries\<close>

text \<open>
  Claim C7, as stated, fails: with \<open>max_retries = 3\<close> and a session whose every request
  raises, one call of the request function issues one session request and passes the rate
  limiter once.
\<close>

theorem single_attempt_counterexample:
  "max_retries (config (base_scraper_init proxy_config 0)) = 3
   \<and> fst (make_request_sync failing_world 0 ''http://a.test/x'' (base_scraper_init proxy_config 0))
     = Inr None
   \<and> session_requests
        (snd (make_request_sync failing_world 0 ''http://a.test/x''
                (base_scraper_init proxy_config 0)))
     = [(''http://a.test/x'', Some ''http://p1:8080'')]
   \<and> request_count (rate_limiter
        (snd (make_request_sync failing_world 0 ''http://a.test/x''
                (base_scraper_init proxy_config 0)))) = 1"
  by (simp add: eval_defs failing_world_def)

lemma make_request_sync_request_count:
  "request_count (rate_limiter (snd (make_request_sync w now url s)))
     = request_count (rate_limiter s) + (if fst (can_fetch w url ''*'' s) then 1 else 0)"
proof (cases "fst (can_fetch w url ''*'' s)")
  case True
  then show ?thesis
    by (simp add: make_request_sync_rate_limiter wait_sync_def Let_def)
next
  case False
  then obtain s1 where cf: "can_fetch w url ''*'' s = (False, s1)"
    by (cases "can_fetch w url ''*'' s") auto
  then show ?thesis using can_fetch_keeps(2)[OF cf]
    by (simp add: make_request_sync_denied)
qed

text \<open>
  Either nothing is sent, or one request is sent through the session of the session
  manager and its answer is the result.
\<close>

lemma make_request_sync_sends:
  "session_requests (snd (make_request_sync w now url s)) = session_requests s
   \<or> (\<exists>proxy.
         session_requests (snd (make_request_sync w now url s))
           = session_requests s @ [(url, proxy)]
         \<and> sync_session (snd (make_request_sync w now url s))
           = snd (get_sync_session (config s) (sync_session s))
         \<and> fst (make_request_sync w now url s)
           = (case session_request w (length (session_requests s))
                     (fst (get_sync_session (config s) (sync_session s))) url proxy of
                RequestException \<Rightarrow> Inr None
              | Response code body \<Rightarrow>
                  if code = 200 then Inr (Some \<lparr>status_code = code, resp_text = body\<rparr>)
                  else Inr None))"
proof -
  obtain b s1 where cf: "can_fetch w url ''*'' s = (b, s1)"
    by (cases "can_fetch w url ''*'' s")
  note k = can_fetch_keeps(1,4,9)[OF cf]
  show ?thesis
  proof (cases b)
    case False
    with cf make_request_sync_denied[of w url s s1 now] k show ?thesis by simp
  next
    case True
    with cf have cf': "can_fetch w url ''*'' s = (True, s1)" by simp
    from cf' show ?thesis
    proof (cases rule: make_request_sync_allowed[where now = now])
      case (key_error pm e)
      then show ?thesis using k by simp
    next
      case (sent proxy pmo r s')
      let ?pa = "case proxy of None \<Rightarrow> None | Some p \<Rightarrow> if p \<noteq> [] then Some p else None"
      have "session_requests (snd (make_request_sync w now url s))
              = session_requests s @ [(url, ?pa)]"
        using sent(2,9) k by simp
      moreover have "sync_session (snd (make_request_sync w now url s))
           = snd (get_sync_session (config s) (sync_session s))"
        using sent(2,10) k by simp
      moreover have "fst (make_request_sync w now url s)
           = (case session_request w (length (session_requests s))
                     (fst (get_sync_session (config s) (sync_session s))) url ?pa of
                RequestException \<Rightarrow> Inr None
              | Response code body \<Rightarrow>
                  if code = 200 then Inr (Some \<lparr>status_code = code, resp_text = body\<rparr>)
                  else Inr None)"
        using sent(2,11) k by simp
      ultimately show ?thesis by blast
    qed
  qed
qed

lemma get_sync_session_new:
  "adapter_max_retries (fst (get_sync_session cfg None)) = max_retries cfg"
  "snd (get_sync_session cfg cur) = Some (fst (get_sync_session cfg cur))"
  by (simp_all add: get_sync_session_def Let_def split: option.splits)

text \<open>
  Claim C7, amended. One call of the request function passes the rate limiter once when
  robots.txt allows the URL and not at all when it denies it, draws at most one proxy, and
  sends at most one request, none on a robots denial. When a request is sent, it goes
  through the session of the session manager, whose adapter is mounted with
  \<open>max_retries\<close> when this call builds it, and the answer of that one request is the
  result: an exception and a status other than 200 both give \<open>None\<close>. So whatever is
  retried is retried inside the session request, and neither the rate limiter nor the
  proxy selection is applied again.
\<close>

theorem request_function_gates_once:
  "request_count (rate_limiter (snd (make_request_sync w now url s)))
     = request_count (rate_limiter s) + (if fst (can_fetch w url ''*'' s) then 1 else 0)
   \<and> (proxy_manager (snd (make_request_sync w now url s)) = proxy_manager s
      \<or> (\<exists>pm t r pm'. proxy_manager s = Some pm
           \<and> get_proxy (random_pick w) t pm = Inr (r, pm')
           \<and> proxy_manager (snd (make_request_sync w now url s)) = Some pm'))
   \<and> (session_requests (snd (make_request_sync w now url s)) = session_requests s
      \<or> (\<exists>proxy session.
            session_requests (snd (make_request_sync w now url s))
              = session_requests s @ [(url, proxy)]
            \<and> session = fst (get_sync_session (config s) (sync_session s))
            \<and> sync_session (snd (make_request_sync w now url s)) = Some session
            \<and> fst (make_request_sync w now url s)
              = (case session_request w (length (session_requests s)) session url proxy of
                   RequestException \<Rightarrow> Inr None
                 | Response code body \<Rightarrow>
                     if code = 200 then Inr (Some \<lparr>status_code = code, resp_text = body\<rparr>)
                     else Inr None)))
   \<and> (\<not> fst (can_fetch w url ''*'' s) \<longrightarrow>
        session_requests (snd (make_request_sync w now url s)) = session_requests s
        \<and> fst (make_request_sync w now url s) = Inr None)
   \<and> (sync_session s = None \<longrightarrow>
        adapter_max_retries (fst (get_sync_session (config s) (sync_session s)))
          = max_retries (config s))"
proof -
  have denied: "session_requests (snd (make_request_sync w now url s)) = session_requests s
        \<and> fst (make_request_sync w now url s) = Inr None"
    if "\<not> fst (can_fetch w url ''*'' s)"
  proof -
    from that obtain s1 where cf: "can_fetch w url ''*'' s = (False, s1)"
      by (cases "can_fetch w url ''*'' s") auto
    from make_request_sync_denied[OF cf, of now] can_fetch_keeps(4)[OF cf]
    show ?thesis by simp
  qed
  have built: "adapter_max_retries (fst (get_sync_session (config s) (sync_session s)))
          = max_retries (config s)" if "sync_session s = None"
    using that by (simp add: get_sync_session_new(1))
  from make_request_sync_sends[of w now url s]
  have sends: "session_requests (snd (make_request_sync w now url s)) = session_requests s
      \<or> (\<exists>proxy session.
            session_requests (snd (make_request_sync w now url s))
              = session_requests s @ [(url, proxy)]
            \<and> session = fst (get_sync_session (config s) (sync_session s))
            \<and> sync_session (snd (make_request_sync w now url s)) = Some session
            \<and> fst (make_request_sync w now url s)
              = (case session_request w (length (session_requests s)) session url proxy of
                   RequestException \<Rightarrow> Inr None
                 | Response code body \<Rightarrow>
                     if code = 200 then Inr (Some \<lparr>status_code = code, resp_text = body\<rparr>)
                     else Inr None))"
    by (auto simp: get_sync_session_new(2))
  from make_request_sync_request_count[of w now url s]
    make_request_sync_proxy_manager[of w now url s] sends denied built
  show ?thesis by blast
qed

text \<open>
  A denied URL, an allowed URL whose request succeeds through the session built with
  \<open>max_retries = 3\<close>, and the same request raising when the session is built with
  \<open>max_retries = 0\<close>.
\<close>

theorem request_function_gates_once_witness:
  "\<not> fst (can_fetch deny_world ''http://a.test/x'' ''*'' (base_scraper_init default_config 0))
   \<and> session_requests (snd (make_request_sync deny_world 0 ''http://a.test/x''
                              (base_scraper_init default_config 0))) = []
   \<and> fst (make_request_sync deny_world 0 ''http://a.test/x''
            (base_scraper_init default_config 0)) = Inr None
   \<and> sync_session (base_scraper_init default_config 0) = None
   \<and> adapter_max_retries
        (fst (get_sync_session (config (base_scraper_init default_config 0))
                (sync_session (base_scraper_init default_config 0)))) = 3
   \<and> fst (make_request_sync flaky_world 0 ''http://a.test/x''
            (base_scraper_init default_config 0))
       = Inr (Some \<lparr>status_code = 200, resp_text = ''ok''\<rparr>)
   \<and> fst (make_request_sync flaky_world 0 ''http://a.test/x''
            (base_scraper_init (default_config\<lparr>max_retries := 0\<rparr>) 0)) = Inr None
   \<and> request_count (rate_limiter (snd (make_request_sync flaky_world 0 ''http://a.test/x''
            (base_scraper_init default_config 0)))) = 1"
proof -
  let ?s = "base_scraper_init default_config 0"
  let ?u = "''http://a.test/x''"
  have h1: "\<not> fst (can_fetch deny_world ?u ''*'' ?s)"
    by (simp add: eval_defs deny_world_def)
  have h2: "sync_session ?s = None"
    by (simp add: base_scraper_init_def)
  have i: "session_requests ?s = []" "max_retries (config ?s) = 3"
    "request_count (rate_limiter ?s) = 0"
    by (simp_all add: base_scraper_init_def default_config_def rate_limiter_init_def)
  have a: "fst (can_fetch flaky_world ?u ''*'' ?s)"
    by (simp add: eval_defs flaky_world_def)
  have v: "fst (make_request_sync flaky_world 0 ?u ?s)
             = Inr (Some \<lparr>status_code = 200, resp_text = ''ok''\<rparr>)"
    "fst (make_request_sync flaky_world 0 ?u
            (base_scraper_init (default_config\<lparr>max_retries := 0\<rparr>) 0)) = Inr None"
    by (simp_all add: eval_defs flaky_world_def)
  from request_function_gates_once[of deny_world 0 ?u ?s]
    request_function_gates_once[of flaky_world 0 ?u ?s] h1 h2 i a v
  show ?thesis by simp
qed

subsection \<open>Generated page URLs\<close>

lemma dict_set_twice: "dict_set k v (dict_set k v' d) = dict_set k v d"
  by (induction d) auto

lemma loop_truthy:
  assumes "generate_page_urls_loop q parsed page_param start_page max_pages qp page urls = Some r"
  shows "\<exists>m. max_pages = Some m \<and> m \<noteq> 0"
proof (rule generate_page_urls_loop.raw_induct
         [where P = "\<lambda>q parsed page_param start_page max_pages qp page urls r.
                       \<exists>m. max_pages = Some m \<and> m \<noteq> 0", OF _ assms])
  fix f :: "query_lib \<Rightarrow> parsed_url \<Rightarrow> string \<Rightarrow> int \<Rightarrow> int option \<Rightarrow>
              (string \<times> string list) list \<Rightarrow> int \<Rightarrow> string list \<Rightarrow> string list option"
    and q :: query_lib and parsed :: parsed_url and page_param :: string
    and start_page :: int and max_pages :: "int option"
    and qp :: "(string \<times> string list) list"
    and page :: int and urls r :: "string list"
  assume IH: "\<And>q parsed page_param start_page max_pages qp page urls r.
      f q parsed page_param start_page max_pages qp page urls = Some r
        \<Longrightarrow> \<exists>m. max_pages = Some m \<and> m \<noteq> 0"
  assume step: "(if (case max_pages of None \<Rightarrow> False
          | Some m \<Rightarrow> m \<noteq> 0 \<and> page > start_page + m - 1)
      then Some urls
      else
        let query_params1 = dict_set page_param [str_int page] qp;
            new_query = urlencode q query_params1;
            new_url = urlunparse q
                        \<lparr>scheme = scheme parsed, netloc = netloc parsed, path = path parsed,
                         params = params parsed, query = new_query,
                         fragment = fragment parsed\<rparr>
        in f q parsed page_param start_page max_pages
             query_params1 (page + 1) (urls @ [new_url])) = Some r"
  show "\<exists>m. max_pages = Some m \<and> m \<noteq> 0"
  proof (cases "case max_pages of None \<Rightarrow> False
          | Some m \<Rightarrow> m \<noteq> 0 \<and> page > start_page + m - 1")
    case True
    then show ?thesis by (cases max_pages) simp_all
  next
    case False
    with step show ?thesis by (auto simp: Let_def dest: IH)
  qed
qed

lemma page_url_overwrite:
  "page_url q parsed page_param (dict_set page_param v qp) p = page_url q parsed page_param qp p"
  by (simp add: page_url_def dict_set_twice)

lemma loop_positive:
  assumes "0 < m" and "page \<le> start_page + m"
  shows "generate_page_urls_loop q parsed page_param start_page (Some m) qp page urls
           = Some (urls @ map (page_url q parsed page_param qp) [page .. start_page + m - 1])"
  using assms(2)
proof (induction "nat (start_page + m - page)" arbitrary: page qp urls)
  case 0
  then have e: "page = start_page + m" by simp
  show ?case
    by (subst generate_page_urls_loop.simps) (use assms(1) e in simp)
next
  case (Suc k)
  then have lt: "page < start_page + m" by linarith
  have k: "k = nat (start_page + m - (page + 1))" using Suc(2) by linarith
  have le: "page + 1 \<le> start_page + m" using lt by simp
  have u: "[page .. start_page + m - 1] = page # [page + 1 .. start_page + m - 1]"
    using lt by (simp add: upto_rec1)
  show ?case
    apply (subst generate_page_urls_loop.simps)
    using lt assms(1)
    apply (simp add: Let_def Suc(1)[OF k le] u page_url_overwrite)
    apply (simp add: page_url_def)
    done
qed

lemma loop_negative:
  assumes "m < 0"
  shows "generate_page_urls_loop q parsed page_param start_page (Some m) qp start_page urls
           = Some urls"
  by (subst generate_page_urls_loop.simps) (use assms in simp)

text \<open>
  Claim C10. \<open>generate_page_urls\<close> does not return when \<open>max_pages\<close> is \<open>None\<close> or
  zero; for a positive \<open>max_pages\<close> it returns exactly \<open>max_pages\<close> URLs, those of the
  page numbers \<open>start_page\<close> to \<open>start_page + max_pages - 1\<close> in increasing order; and it
  returns only when \<open>max_pages\<close> is truthy, that is an integer other than zero.
\<close>

theorem generate_page_urls_terminates_iff:
  "generate_page_urls w q base_url page_param start_page None = None
   \<and> generate_page_urls w q base_url page_param start_page (Some 0) = None
   \<and> (0 < m \<longrightarrow>
        generate_page_urls w q base_url page_param start_page (Some m)
          = Some (map (page_url q (urlparse w base_url) page_param
                         (parse_qs q (query (urlparse w base_url))))
                    [start_page .. start_page + m - 1])
        \<and> int (length (map (page_url q (urlparse w base_url) page_param
                         (parse_qs q (query (urlparse w base_url))))
                    [start_page .. start_page + m - 1])) = m)
   \<and> ((generate_page_urls w q base_url page_param start_page max_pages \<noteq> None)
        = (\<exists>k. max_pages = Some k \<and> k \<noteq> 0))"
proof -
  let ?parsed = "urlparse w base_url"
  let ?qp = "parse_qs q (query ?parsed)"
  have none: "generate_page_urls w q base_url page_param start_page mp = None"
    if "\<not> (\<exists>k. mp = Some k \<and> k \<noteq> 0)" for mp
  proof (cases "generate_page_urls w q base_url page_param start_page mp")
    case None
    then show ?thesis .
  next
    case (Some r)
    then have "generate_page_urls_loop q ?parsed page_param start_page mp ?qp start_page []
                 = Some r"
      by (simp add: generate_page_urls_def Let_def)
    from loop_truthy[OF this] that show ?thesis by simp
  qed
  have pos: "generate_page_urls w q base_url page_param start_page (Some k)
          = Some (map (page_url q ?parsed page_param ?qp) [start_page .. start_page + k - 1])"
    if "0 < k" for k
    using loop_positive[OF that, of start_page start_page q ?parsed page_param ?qp "[]"] that
    by (simp add: generate_page_urls_def Let_def)
  have neg: "generate_page_urls w q base_url page_param start_page (Some k) = Some []"
    if "k < 0" for k
    using loop_negative[OF that, of q ?parsed page_param start_page ?qp "[]"]
    by (simp add: generate_page_urls_def Let_def)
  have iff: "(generate_page_urls w q base_url page_param start_page max_pages \<noteq> None)
        = (\<exists>k. max_pages = Some k \<and> k \<noteq> 0)"
  proof (cases "\<exists>k. max_pages = Some k \<and> k \<noteq> 0")
    case False
    then show ?thesis using none[OF False] by simp
  next
    case True
    then obtain k where k: "max_pages = Some k" "k \<noteq> 0" by blast
    then have "0 < k \<or> k < 0" by linarith
    then show ?thesis using pos[of k] neg[of k] k by auto
  qed
  have len: "int (length (map (page_url q ?parsed page_param ?qp)
                    [start_page .. start_page + m - 1])) = m" if "0 < m"
    using that by simp
  from none[of None] none[of "Some 0"] pos[of m] len iff show ?thesis by simp
qed

theorem generate_page_urls_terminates_iff_witness:
  "(0::int) < 3
   \<and> generate_page_urls robots_down_world example_query_lib ''/list'' ''page'' 1 (Some 3)
       = Some [''http://a.test/list?page=1;'', ''http://a.test/list?page=2;'',
               ''http://a.test/list?page=3;'']
   \<and> generate_page_urls robots_down_world example_query_lib ''/list'' ''page'' 1 None = None
   \<and> generate_page_urls robots_down_world example_query_lib ''/list'' ''page'' 1 (Some 0) = None"
proof -
  have u: "[1 .. 1 + 3 - 1] = [1, 2, 3::int]"
    by (simp add: upto_rec1)
  have p: "urlparse robots_down_world ''/list''
             = \<lparr>scheme = ''http'', netloc = ''a.test'', path = ''/list'', params = [],
                query = [], fragment = []\<rparr>"
    by (simp add: robots_down_world_def)
  from generate_page_urls_terminates_iff
         [of robots_down_world example_query_lib "''/list''" "''page''" 1 3 None]
  show ?thesis
    unfolding u p
    by (simp add: page_url_def example_query_lib_def str_int_def str_nat.simps digit_char_def)
qed

subsection \<open>Fingerprints and admission\<close>








































subsection \<open>Multi-URL scheduler\<close>

text \<open>
  Claim C1, as stated, fails: of two URLs of which the second cannot be scraped, the
  scheduler returns one outcome; the failure is an entry of \<open>errors\<close>.
\<close>

theorem multiple_urls_drops_failures_counterexample:
  "fst (the (scrape_multiple_urls_async example_scrapers
               [''http://a.test/ok'', ''http://a.test/bad''] None False None
               (web_scraper_init default_config ())))
     = Inr [[(''url'', JStr ''http://a.test/ok'')]]
   \<and> errors (snd (the (scrape_multiple_urls_async example_scrapers
               [''http://a.test/ok'', ''http://a.test/bad''] None False None
               (web_scraper_init default_config ()))))
     = [(''http://a.test/bad'', ''No result returned'')]"
  by (simp add: ws_eval_defs)

lemma scrape_single_url_with_effect:
  assumes "scrape_single_url_with html browser c url sel use_browser s = (r, s')"
  shows "scraped_urls s' = scraped_urls s @ [url]"
    and "ws_config s' = ws_config s"
    and "length (errors s') = length (errors s) + (if r = None then 1 else 0)"
    and "r \<noteq> Some []"
proof -
  define s0 where "s0 = s\<lparr>scraped_urls := scraped_urls s @ [url]\<rparr>"
  define ah where "ah =
            (if use_browser
             then (case browser url (scraper_state s0) of
                     (Inl e, h) \<Rightarrow> (Inl e, h)
                   | (Inr None, h) \<Rightarrow> (Inr None, h)
                   | (Inr (Some d), h) \<Rightarrow>
                       (case (d, map_of d ''page_source'', sel) of
                          (_ # _, Some src, Some (x # xs)) \<Rightarrow>
                            (case extract_data c src (x # xs) url of
                               Inl e \<Rightarrow> (Inl e, h)
                             | Inr data \<Rightarrow> (Inr (Some (dict_set ''data'' data d)), h))
                        | _ \<Rightarrow> (Inr (Some d), h)))
             else html url sel (scraper_state s0))"
  obtain attempt h1 where ah': "ah = (attempt, h1)" by (cases ah)
  define s1 where "s1 = s0\<lparr>scraper_state := h1\<rparr>"
  have base: "scraped_urls s1 = scraped_urls s @ [url]" "ws_config s1 = ws_config s"
    "errors s1 = errors s"
    by (simp_all add: s1_def s0_def)
  have r: "(r, s') = (case attempt of
           Inl e \<Rightarrow> (None, s1\<lparr>errors := errors s1 @ [(url, error_text e)]\<rparr>)
         | Inr None \<Rightarrow> (None, s1\<lparr>errors := errors s1 @ [(url, ''No result returned'')]\<rparr>)
         | Inr (Some []) \<Rightarrow>
             (None, s1\<lparr>errors := errors s1 @ [(url, ''No result returned'')]\<rparr>)
         | Inr (Some (kv # d)) \<Rightarrow>
             (case is_duplicate (hash_functions c) (JDict (kv # d)) (data_processor s1) of
                (True, dp) \<Rightarrow> (Some (kv # d), s1\<lparr>data_processor := dp\<rparr>)
              | (False, dp) \<Rightarrow>
                  (Some (kv # d),
                   s1\<lparr>data_processor := dp, results := results s1 @ [kv # d]\<rparr>)))"
    using assms ah'
    unfolding scrape_single_url_with_def s0_def[symmetric] ah_def[symmetric] Let_def s1_def
    by simp
  have "scraped_urls s' = scraped_urls s @ [url] \<and> ws_config s' = ws_config s
        \<and> length (errors s') = length (errors s) + (if r = None then 1 else 0)
        \<and> r \<noteq> Some []"
    using r base
    by (auto split: sum.splits option.splits list.splits prod.splits bool.splits)
  then show "scraped_urls s' = scraped_urls s @ [url]"
    and "ws_config s' = ws_config s"
    and "length (errors s') = length (errors s) + (if r = None then 1 else 0)"
    and "r \<noteq> Some []"
    by simp_all
qed

lemma gather_effect:
  assumes "\<And>url s r s'. task url s = (r, s') \<Longrightarrow>
             scraped_urls s' = scraped_urls s @ [url]
             \<and> length (errors s') = length (errors s) + (if r = None then 1 else 0)
             \<and> r \<noteq> Some []"
    and "gather task urls s = (rs, s')"
  shows "scraped_urls s' = scraped_urls s @ urls
         \<and> length (valid_results rs) + length (errors s') = length urls + length (errors s)"
  using assms(2)
proof (induction urls arbitrary: s rs s')
  case Nil
  then show ?case by simp
next
  case (Cons url urls)
  obtain r s1 where t: "task url s = (r, s1)" by (cases "task url s")
  obtain rs1 s2 where g: "gather task urls s1 = (rs1, s2)" by (cases "gather task urls s1")
  from Cons.prems t g have e: "rs = Inr r # rs1" "s' = s2" by simp_all
  note a = assms(1)[OF t] and b = Cons.IH[OF g]
  show ?case
  proof (cases r)
    case None
    then show ?thesis using a b e by simp
  next
    case (Some d)
    then have "d \<noteq> []" using a by simp
    then obtain kv d' where "d = kv # d'" by (cases d) auto
    then show ?thesis using a b e Some by simp
  qed
qed

text \<open>
  Claim C1, amended. With a positive concurrency limit the scheduler returns, every URL is
  attempted once in input order, and the number of returned results plus the number of
  errors recorded during the call is the number of URLs: each URL gives either a returned
  result or one error entry.
\<close>

theorem multiple_urls_outcomes:
  assumes "0 < (case max_concurrent of
                  None \<Rightarrow> concurrent_requests (ws_config s)
                | Some m \<Rightarrow> if m \<noteq> 0 then m else concurrent_requests (ws_config s))"
  shows "\<exists>rs s'. scrape_multiple_urls_async c urls sel use_browser max_concurrent s
                    = Some (Inr rs, s')
           \<and> length rs + length (errors s') = length urls + length (errors s)
           \<and> scraped_urls s' = scraped_urls s @ urls"
proof -
  let ?task = "\<lambda>url. scrape_single_url_async c url sel use_browser"
  obtain rs s' where g: "gather ?task urls s = (rs, s')" by (cases "gather ?task urls s")
  have eff: "scraped_urls s2 = scraped_urls s1 @ [url]
             \<and> length (errors s2) = length (errors s1) + (if r = None then 1 else 0)
             \<and> r \<noteq> Some []"
    if "?task url s1 = (r, s2)" for url r and s1 s2 :: "'a web_scraper"
    using scrape_single_url_with_effect(1,3,4)[OF that[unfolded scrape_single_url_async_def]]
    by simp
  have "scraped_urls s' = scraped_urls s @ urls
         \<and> length (valid_results rs) + length (errors s') = length urls + length (errors s)"
    using gather_effect[where task = ?task, OF eff g] by simp
  moreover have "scrape_multiple_urls_async c urls sel use_browser max_concurrent s
                   = Some (Inr (valid_results rs), s')"
    using assms g by (simp add: scrape_multiple_urls_async_def Let_def)
  ultimately show ?thesis by blast
qed

theorem multiple_urls_outcomes_witness:
  "0 < (case None of
          None \<Rightarrow> concurrent_requests (ws_config (web_scraper_init default_config ()))
        | Some m \<Rightarrow> if m \<noteq> 0 then m
                     else concurrent_requests (ws_config (web_scraper_init default_config ())))
   \<and> (\<exists>rs s'. scrape_multiple_urls_async example_scrapers
                    [''http://a.test/ok'', ''http://a.test/bad''] None False None
                    (web_scraper_init default_config ()) = Some (Inr rs, s')
          \<and> length rs + length (errors s') = 2
          \<and> scraped_urls s' = [''http://a.test/ok'', ''http://a.test/bad''])"
proof -
  have h: "0 < (case None of
          None \<Rightarrow> concurrent_requests (ws_config (web_scraper_init default_config ()))
        | Some m \<Rightarrow> if m \<noteq> 0 then m
                     else concurrent_requests (ws_config (web_scraper_init default_config ())))"
    by (simp add: web_scraper_init_def default_config_def)
  have i: "errors (web_scraper_init default_config ()) = []"
    "scraped_urls (web_scraper_init default_config ()) = []"
    by (simp_all add: web_scraper_init_def)
  from multiple_urls_outcomes[OF h, of example_scrapers
         "[''http://a.test/ok'', ''http://a.test/bad'']" None False] h
  show ?thesis unfolding i by (simp add: numeral_2_eq_2)
qed

subsection \<open>Pagination walk\<close>

text \<open>
  Claim C2, as stated, fails: on a site whose pages \<open>/1\<close> and \<open>/2\<close> name each other as
  next page, a walk of three pages from \<open>/1\<close> scrapes \<open>/1\<close> a second time.
\<close>

theorem pagination_revisits_counterexample:
  "scraped_urls (snd (the (scrape_with_pagination example_scrapers ''http://a.test/1'' None
                             (Some 3) False (web_scraper_init default_config ()))))
     = [''http://a.test/1'', ''http://a.test/2'', ''http://a.test/1'']"
  by (simp add: ws_eval_defs scrape_with_pagination_loop.simps)

lemma page_for_pagination_trace:
  assumes "page_for_pagination c current_url use_browser res s = (x, s')"
  shows "scraped_urls s' = scraped_urls s"
  using assms
  by (auto simp: page_for_pagination_def
      split: option.splits if_splits prod.splits sum.splits)

lemma scrape_with_pagination_loop_trace:
  assumes "scrape_with_pagination_loop c sel max_pages use_browser current_url page_count
             all_results s = Some y"
  shows "\<exists>us. scraped_urls (snd y) = scraped_urls s @ us \<and> distinct_adj us
              \<and> (us \<noteq> [] \<longrightarrow> hd us = current_url)"
proof (rule scrape_with_pagination_loop.raw_induct
         [where P = "\<lambda>c sel max_pages use_browser current_url page_count all_results s y.
            \<exists>us. scraped_urls (snd y) = scraped_urls s @ us \<and> distinct_adj us
              \<and> (us \<noteq> [] \<longrightarrow> hd us = current_url)", OF _ assms])
  fix f :: "'a scrapers \<Rightarrow> selectors option \<Rightarrow> int option \<Rightarrow> bool \<Rightarrow> string \<Rightarrow> int \<Rightarrow>
            result list \<Rightarrow> 'a web_scraper \<Rightarrow> ((py_error + result list) \<times> 'a web_scraper) option"
    and c :: "'a scrapers" and sel :: "selectors option" and max_pages :: "int option"
    and use_browser :: bool and current_url :: string and page_count :: int
    and all_results :: "result list" and s :: "'a web_scraper"
    and y :: "(py_error + result list) \<times> 'a web_scraper"
  assume IH: "\<And>c sel max_pages use_browser current_url page_count all_results s y.
      f c sel max_pages use_browser current_url page_count all_results s = Some y \<Longrightarrow>
      \<exists>us. scraped_urls (snd y) = scraped_urls s @ us \<and> distinct_adj us
              \<and> (us \<noteq> [] \<longrightarrow> hd us = current_url)"
  assume step: "(if current_url \<noteq> []
         \<and> (case max_pages of None \<Rightarrow> True | Some m \<Rightarrow> m = 0 \<or> page_count < m)
      then
        (case scrape_single_url c current_url sel use_browser s of
           (None, s1) \<Rightarrow> Some (Inr all_results, s1)
         | (Some [], s1) \<Rightarrow> Some (Inr all_results, s1)
         | (Some (kv # d), s1) \<Rightarrow>
             (case page_for_pagination c current_url use_browser (kv # d) s1 of
                (Inl e, s2) \<Rightarrow> Some (Inl e, s2)
              | (Inr None, s2) \<Rightarrow> Some (Inr (all_results @ [kv # d]), s2)
              | (Inr (Some page), s2) \<Rightarrow>
                  (case get_next_page_url (join_url c) page current_url of
                     None \<Rightarrow> Some (Inr (all_results @ [kv # d]), s2)
                   | Some next_url \<Rightarrow>
                       if next_url \<noteq> [] \<and> next_url \<noteq> current_url
                       then f c sel max_pages use_browser
                              next_url (page_count + 1) (all_results @ [kv # d]) s2
                       else Some (Inr (all_results @ [kv # d]), s2))))
      else Some (Inr all_results, s)) = Some y"
  let ?goal = "\<exists>us. scraped_urls (snd y) = scraped_urls s @ us \<and> distinct_adj us
              \<and> (us \<noteq> [] \<longrightarrow> hd us = current_url)"
  show ?goal
  proof (cases "current_url \<noteq> []
         \<and> (case max_pages of None \<Rightarrow> True | Some m \<Rightarrow> m = 0 \<or> page_count < m)")
    case False
    with step have "snd y = s" by auto
    then show ?thesis by simp
  next
    case True
    obtain r s1 where sc: "scrape_single_url c current_url sel use_browser s = (r, s1)"
      by (cases "scrape_single_url c current_url sel use_browser s")
    have t1: "scraped_urls s1 = scraped_urls s @ [current_url]"
      using scrape_single_url_with_effect(1)[OF sc[unfolded scrape_single_url_def]] .
    have one: ?goal if "snd y = s2" and "scraped_urls s2 = scraped_urls s1" for s2
      using that t1 by (intro exI[of _ "[current_url]"]) simp
    show ?thesis
    proof (cases r)
      case None
      with step True sc have "snd y = s1" by auto
      then show ?thesis by (rule one) simp
    next
      case (Some res)
      show ?thesis
      proof (cases res)
        case Nil
        with step True sc Some have "snd y = s1" by auto
        then show ?thesis by (rule one) simp
      next
        case (Cons kv d)
        obtain x s2 where pf: "page_for_pagination c current_url use_browser (kv # d) s1 = (x, s2)"
          by (cases "page_for_pagination c current_url use_browser (kv # d) s1")
        note t2 = page_for_pagination_trace[OF pf]
        show ?thesis
        proof (cases x)
          case (Inl e)
          with step True sc Some Cons pf have "snd y = s2" by auto
          then show ?thesis using t2 by (rule one)
        next
          case (Inr po)
          show ?thesis
          proof (cases po)
            case None
            with step True sc Some Cons pf Inr have "snd y = s2" by auto
            then show ?thesis using t2 by (rule one)
          next
            case po: (Some page)
            show ?thesis
            proof (cases "get_next_page_url (join_url c) page current_url")
              case None
              with step True sc Some Cons pf Inr po have "snd y = s2" by auto
              then show ?thesis using t2 by (rule one)
            next
              case nx: (Some next_url)
              show ?thesis
              proof (cases "next_url \<noteq> [] \<and> next_url \<noteq> current_url")
                case False
                with step True sc Some Cons pf Inr po nx have "snd y = s2" by auto
                then show ?thesis using t2 by (rule one)
              next
                case go: True
                with step True sc Some Cons pf Inr po nx
                have "f c sel max_pages use_browser next_url (page_count + 1)
                        (all_results @ [kv # d]) s2 = Some y" by simp
                from IH[OF this] obtain us where
                  us: "scraped_urls (snd y) = scraped_urls s2 @ us" "distinct_adj us"
                    "us \<noteq> [] \<longrightarrow> hd us = next_url" by blast
                have "scraped_urls (snd y) = scraped_urls s @ (current_url # us)"
                  using us(1) t1 t2 by simp
                moreover have "distinct_adj (current_url # us)"
                  using us(2,3) go by (cases us) auto
                ultimately show ?thesis
                  by (intro exI[of _ "current_url # us"]) simp
              qed
            qed
          qed
        qed
      qed
    qed
  qed
qed

lemma scrape_with_pagination_loop_self_link:
  assumes "current_url \<noteq> []"
    and "case max_pages of None \<Rightarrow> True | Some m \<Rightarrow> m = 0 \<or> page_count < m"
    and "scrape_single_url c current_url sel use_browser s = (Some res, s1)"
    and "page_for_pagination c current_url use_browser res s1 = (Inr (Some page), s2)"
    and "get_next_page_url (join_url c) page current_url = Some current_url"
  shows "scrape_with_pagination_loop c sel max_pages use_browser current_url page_count
           all_results s = Some (Inr (all_results @ [res]), s2)"
    and "scraped_urls s2 = scraped_urls s @ [current_url]"
proof -
  have ne: "res \<noteq> []"
    using scrape_single_url_with_effect(4)[OF assms(3)[unfolded scrape_single_url_def]] by simp
  then obtain kv d where res: "res = kv # d" by (cases res) auto
  show "scrape_with_pagination_loop c sel max_pages use_browser current_url page_count
           all_results s = Some (Inr (all_results @ [res]), s2)"
    by (subst scrape_with_pagination_loop.simps)
       (use assms res in simp)
  show "scraped_urls s2 = scraped_urls s @ [current_url]"
    using scrape_single_url_with_effect(1)[OF assms(3)[unfolded scrape_single_url_def]]
      page_for_pagination_trace[OF assms(4)] by simp
qed

text \<open>
  Claim C2, amended. A walk that returns never scrapes the same URL twice in a row. At
  any page whose next link resolves to the URL of the page itself the walk ends with that
  page as the last result, and a seed page that links to itself ends the walk after one
  page, also without a page ceiling.
\<close>

theorem pagination_no_immediate_revisit:
  "(scrape_with_pagination c start_url sel max_pages use_browser s = Some (r, s') \<longrightarrow>
      (\<exists>us. scraped_urls s' = scraped_urls s @ us \<and> distinct_adj us))
   \<and> (current_url \<noteq> []
       \<and> (case max_pages of None \<Rightarrow> True | Some m \<Rightarrow> m = 0 \<or> page_count < m)
       \<and> scrape_single_url c current_url sel use_browser s = (Some res, s1)
       \<and> page_for_pagination c current_url use_browser res s1 = (Inr (Some page), s2)
       \<and> get_next_page_url (join_url c) page current_url = Some current_url \<longrightarrow>
         scrape_with_pagination_loop c sel max_pages use_browser current_url page_count
           all_results s = Some (Inr (all_results @ [res]), s2)
         \<and> scraped_urls s2 = scraped_urls s @ [current_url])
   \<and> (current_url \<noteq> []
       \<and> (case max_pages of None \<Rightarrow> True | Some m \<Rightarrow> m = 0 \<or> 0 < m)
       \<and> scrape_single_url c current_url sel use_browser s = (Some res, s1)
       \<and> page_for_pagination c current_url use_browser res s1 = (Inr (Some page), s2)
       \<and> get_next_page_url (join_url c) page current_url = Some current_url \<longrightarrow>
         scrape_with_pagination c current_url sel max_pages use_browser s
           = Some (Inr [res], s2))"
proof (intro conjI impI)
  assume "scrape_with_pagination c start_url sel max_pages use_browser s = Some (r, s')"
  from scrape_with_pagination_loop_trace[OF this[unfolded scrape_with_pagination_def]]
  show "\<exists>us. scraped_urls s' = scraped_urls s @ us \<and> distinct_adj us" by auto
next
  assume a: "current_url \<noteq> []
       \<and> (case max_pages of None \<Rightarrow> True | Some m \<Rightarrow> m = 0 \<or> page_count < m)
       \<and> scrape_single_url c current_url sel use_browser s = (Some res, s1)
       \<and> page_for_pagination c current_url use_browser res s1 = (Inr (Some page), s2)
       \<and> get_next_page_url (join_url c) page current_url = Some current_url"
  then show "scrape_with_pagination_loop c sel max_pages use_browser current_url page_count
           all_results s = Some (Inr (all_results @ [res]), s2)"
    using scrape_with_pagination_loop_self_link(1) by blast
  from a show "scraped_urls s2 = scraped_urls s @ [current_url]"
    using scrape_with_pagination_loop_self_link(2) by blast
next
  assume a: "current_url \<noteq> []
       \<and> (case max_pages of None \<Rightarrow> True | Some m \<Rightarrow> m = 0 \<or> 0 < m)
       \<and> scrape_single_url c current_url sel use_browser s = (Some res, s1)
       \<and> page_for_pagination c current_url use_browser res s1 = (Inr (Some page), s2)
       \<and> get_next_page_url (join_url c) page current_url = Some current_url"
  then show "scrape_with_pagination c current_url sel max_pages use_browser s
           = Some (Inr [res], s2)"
    unfolding scrape_with_pagination_def
    using scrape_with_pagination_loop_self_link(1)[where all_results = "[]" and page_count = 0]
    by fastforce
qed

theorem pagination_no_immediate_revisit_witness:
  "''http://a.test/self'' \<noteq> []
   \<and> fst (scrape_single_url example_scrapers ''http://a.test/self'' None False
            (web_scraper_init default_config ()))
       = Some [(''url'', JStr ''http://a.test/self'')]
   \<and> get_next_page_url (join_url example_scrapers)
         (make_soup example_scrapers (JStr ''http://a.test/self'')) ''http://a.test/self''
       = Some ''http://a.test/self''
   \<and> map_option fst (scrape_with_pagination example_scrapers ''http://a.test/self'' None None
                        False (web_scraper_init default_config ()))
       = Some (Inr [[(''url'', JStr ''http://a.test/self'')]])
   \<and> map_option (\<lambda>y. scraped_urls (snd y))
         (scrape_with_pagination example_scrapers ''http://a.test/self'' None None
            False (web_scraper_init default_config ()))
       = Some [''http://a.test/self'']"
proof -
  let ?u = "''http://a.test/self''"
  let ?s = "web_scraper_init default_config ()"
  let ?res = "[(''url'', JStr ?u)]"
  let ?s1 = "snd (scrape_single_url example_scrapers ?u None False ?s)"
  let ?page = "make_soup example_scrapers (JStr ?u)"
  let ?s2 = "snd (page_for_pagination example_scrapers ?u False ?res ?s1)"
  have h1: "?u \<noteq> []" by simp
  have h2: "case None :: int option of None \<Rightarrow> True | Some m \<Rightarrow> m = 0 \<or> 0 < m" by simp
  have f3: "fst (scrape_single_url example_scrapers ?u None False ?s) = Some ?res"
    by (simp add: ws_eval_defs)
  then have h3: "scrape_single_url example_scrapers ?u None False ?s = (Some ?res, ?s1)"
    by (simp add: prod_eq_iff)
  have h4: "page_for_pagination example_scrapers ?u False ?res ?s1 = (Inr (Some ?page), ?s2)"
    by (simp add: prod_eq_iff page_for_pagination_def example_scrapers_def)
  have h5: "get_next_page_url (join_url example_scrapers) ?page ?u = Some ?u"
    by (simp add: get_next_page_url_def next_link_patterns_def example_scrapers_def)
  have i: "scraped_urls ?s = []" by (simp add: web_scraper_init_def)
  from pagination_no_immediate_revisit
         [where c = example_scrapers and current_url = ?u and sel = None
            and max_pages = None and use_browser = False and s = ?s and res = ?res
            and ?s1.0 = ?s1 and ?s2.0 = ?s2 and page = ?page and page_count = 0
            and all_results = "[]"]
       h1 h2 h3 h4 h5
  have "scrape_with_pagination example_scrapers ?u None None False ?s = Some (Inr [?res], ?s2)"
    and "scraped_urls ?s2 = scraped_urls ?s @ [?u]"
    by simp_all
  with h1 f3 h5 i show ?thesis by simp
qed

end
